theory Spec2Isabelle
  imports Complex_Main "HOL-Library.Word" "HOL-Library.Multiset"
begin

section \<open>Randomness: secureRandom, shuffleArray, selectUniqueIndices\<close>

text \<open>
  The store draws every random number through \<open>secureRandom\<close>. Each call asks the
  platform for four random bytes and, when that does not deliver, falls back to
  \<open>Math.random\<close>. What the platform answers is input to the program, so one call's
  answers are a value of type \<open>entropy\<close>, and a run of the program reads the answers of
  its successive calls from a sequence \<open>env :: nat \<Rightarrow> entropy\<close>, threading the number of
  the next call.

  \<open>Crypto.getRandomBytesAsync(4)\<close> raced against the 2000 ms timer either delivers a
  byte array, rejects (or throws), or loses the race, in which case \<open>withTimeout\<close>
  resolves to \<open>null\<close>.

  \<open>Math.random()\<close> is a double in \<open>[0, 1)\<close>. Every such double is \<open>k / 2^(53 + j)\<close> for a
  significand \<open>k\<close> of at most 53 bits and a number \<open>j\<close> of further binary places: the
  normal doubles in \<open>[2^-(j+1), 2^-j)\<close> have \<open>2^52 \<le> k\<close> and \<open>j \<le> 1021\<close>, the subnormal
  ones have \<open>j = 1021\<close> and a smaller \<open>k\<close>, and zero has \<open>k = 0\<close>. Nothing below depends on
  the bound on \<open>j\<close>, so \<open>places\<close> is any natural number.
\<close>

datatype crypto_result = Bytes "8 word list" | Rejected | TimedOut

record unit_double =
  significand :: "53 word"
  places :: nat

record entropy =
  crypto :: crypto_result
  math_random :: unit_double

text \<open>
  \<open>new DataView(randomBytes.buffer).getUint32(0, true)\<close>: the first four bytes, least
  significant first. Reading past the end of the buffer throws a RangeError (\<open>None\<close>).
\<close>

fun getUint32 :: "8 word list \<Rightarrow> nat option" where
  "getUint32 (b0 # b1 # b2 # b3 # rest) =
     Some (unat b0 + 2 ^ 8 * unat b1 + 2 ^ 16 * unat b2 + 2 ^ 24 * unat b3)"
| "getUint32 _ = None"

text \<open>
  \<open>Math.random() * max\<close> is a multiplication of doubles: the exact product, rounded to
  the nearest double, ties to the even significand. With \<open>Math.random() = k / 2^(53 + j)\<close>
  the exact product is \<open>n / 2^(53 + j)\<close> for \<open>n = k * max\<close>. A double has 53 significant
  bits, so the product is exact when \<open>n\<close> has at most 53 bits; when \<open>n\<close> has \<open>53 + s\<close>
  bits, its lowest \<open>s\<close> bits are rounded away. \<open>rounded_product k max\<close> is the rounded
  product times \<open>2^(53 + j)\<close>. (\<open>max\<close> is a double itself, an array length in every call.
  The product is below \<open>max\<close> and does not overflow; it is rounded only when \<open>n\<close> has more
  than 53 bits, and is a normal double then, since \<open>53 + j \<le> 1074\<close>.)
\<close>

fun bit_length :: "nat \<Rightarrow> nat" where
  "bit_length n = (if n = 0 then 0 else Suc (bit_length (n div 2)))"

declare bit_length.simps [simp del]

definition round_half_even :: "nat \<Rightarrow> nat \<Rightarrow> nat" where
  "round_half_even n s =
     (let q = n div 2 ^ s; r = n mod 2 ^ s
      in if 2 * r < 2 ^ s then q
         else if 2 ^ s < 2 * r then q + 1
         else if even q then q else q + 1)"

definition rounded_product :: "nat \<Rightarrow> nat \<Rightarrow> nat" where
  "rounded_product k mx =
     (let n = k * mx; s = bit_length n - 53 in round_half_even n s * 2 ^ s)"

text \<open>\<open>Math.floor(Math.random() * max)\<close>.\<close>

definition math_floor_random :: "entropy \<Rightarrow> nat \<Rightarrow> nat" where
  "math_floor_random e mx =
     rounded_product (unat (significand (math_random e))) mx
       div 2 ^ (53 + places (math_random e))"

text \<open>
  \<open>secureRandom(max)\<close>. The result \<open>None\<close> stands for \<open>NaN\<close>, which is what
  \<open>randomValue % max\<close> is when \<open>max\<close> is 0. An exception inside the \<open>try\<close> block is
  caught and leads to the fallback.
\<close>

definition secureRandom :: "entropy \<Rightarrow> nat \<Rightarrow> nat option" where
  "secureRandom e mx =
     (case crypto e of
        Bytes randomBytes \<Rightarrow>
          (case getUint32 randomBytes of
             Some randomValue \<Rightarrow> (if mx = 0 then None else Some (randomValue mod mx))
           | None \<Rightarrow> Some (math_floor_random e mx))
      | Rejected \<Rightarrow> Some (math_floor_random e mx)
      | TimedOut \<Rightarrow> Some (math_floor_random e mx))"

text \<open>
  The loop of \<open>shuffleArray\<close> on the local copy \<open>shuffled\<close>:
  \<open>for (let i = shuffled.length - 1; i > 0; i--)\<close>, with one draw per step. The
  destructuring assignment reads both elements first, then writes position \<open>i\<close>, then
  position \<open>j\<close>. The second argument counts the draws made so far. The branch for
  \<open>NaN\<close> is never taken, because \<open>i + 1\<close> is positive (lemma \<open>secureRandom_Some\<close>); it
  ends the loop.
\<close>

fun shuffle_loop :: "(nat \<Rightarrow> entropy) \<Rightarrow> nat \<Rightarrow> nat \<Rightarrow> 'a list \<Rightarrow> 'a list \<times> nat" where
  "shuffle_loop env n 0 shuffled = (shuffled, n)"
| "shuffle_loop env n (Suc i') shuffled =
     (case secureRandom (env n) (Suc i' + 1) of
        Some j \<Rightarrow>
          shuffle_loop env (Suc n) i'
            (shuffled[Suc i' := shuffled ! j, j := shuffled ! Suc i'])
      | None \<Rightarrow> (shuffled, Suc n))"

text \<open>
  Arrays live in a store: \<open>cells h r\<close> is the content of the array at reference \<open>r\<close>,
  and \<open>fresh h\<close> is the next unused reference. \<open>shuffleArray\<close> takes the reference of
  its argument, builds \<open>[...array]\<close> as a new array, shuffles that one and returns its
  reference.
\<close>

record 'a arrays =
  cells :: "nat \<Rightarrow> 'a list"
  fresh :: nat

definition shuffleArray ::
  "(nat \<Rightarrow> entropy) \<Rightarrow> nat \<Rightarrow> 'a arrays \<Rightarrow> nat \<Rightarrow> nat \<times> 'a arrays \<times> nat" where
  "shuffleArray env n h array =
     (let (shuffled, n') = shuffle_loop env n (length (cells h array) - 1) (cells h array)
      in (fresh h, h\<lparr>cells := (cells h)(fresh h := shuffled), fresh := Suc (fresh h)\<rparr>, n'))"

text \<open>
  The loop of \<open>selectUniqueIndices\<close>:
  \<open>for (let i = 0; i < count && available.length > 0; i++)\<close>. The first numeric
  argument is the number of rounds still allowed by \<open>count\<close>. \<open>available.splice(randomPos, 1)\<close>
  removes the element at \<open>randomPos\<close>. The branch for \<open>NaN\<close> is never taken, because
  \<open>available\<close> is not empty there.
\<close>

fun select_loop ::
  "(nat \<Rightarrow> entropy) \<Rightarrow> nat \<Rightarrow> nat \<Rightarrow> nat list \<Rightarrow> nat list \<Rightarrow> nat list \<times> nat" where
  "select_loop env n 0 available indices = (indices, n)"
| "select_loop env n (Suc c) available indices =
     (if available = [] then (indices, n)
      else
        (case secureRandom (env n) (length available) of
           Some randomPos \<Rightarrow>
             select_loop env (Suc n) c
               (take randomPos available @ drop (Suc randomPos) available)
               (indices @ [available ! randomPos])
         | None \<Rightarrow> (indices, Suc n)))"

definition available_pool :: "nat \<Rightarrow> nat list \<Rightarrow> nat list" where
  "available_pool mx exclude = filter (\<lambda>i. i \<notin> set exclude) [0..<mx]"

definition selectUniqueIndices ::
  "(nat \<Rightarrow> entropy) \<Rightarrow> nat \<Rightarrow> nat \<Rightarrow> nat \<Rightarrow> nat list \<Rightarrow> nat list \<times> nat" where
  "selectUniqueIndices env n cnt mx exclude =
     select_loop env n cnt (available_pool mx exclude) []"

section \<open>Persistent storage and the game configuration\<close>

text \<open>
  AsyncStorage maps keys to texts. A stored text is represented by what \<open>JSON.parse\<close>
  makes of it: \<open>Json v\<close> when it parses to the value \<open>v\<close>, and \<open>Garbage\<close> when
  \<open>JSON.parse\<close> throws on it or the text is empty (\<open>safeJsonParse\<close> answers \<open>null\<close> in
  both cases without calling the validator). Writing \<open>JSON.stringify(v)\<close> stores
  \<open>Json v\<close>: for the objects written here (strings, arrays of strings and \<open>true\<close>)
  parsing gives back the value that was serialized. Numbers are kept as integers. The
  fields of an object are an association list; a lookup takes the first entry of a key.
\<close>

datatype json =
    JNull
  | JBool bool
  | JNum int
  | JStr string
  | JArr "json list"
  | JObj "(string \<times> json) list"

datatype blob = Json json | Garbage

type_synonym storage = "string \<Rightarrow> blob option"

definition STORAGE_KEY :: string where
  "STORAGE_KEY = ''impostor_game_v1''"

definition CUSTOM_CATEGORIES_KEY :: string where
  "CUSTOM_CATEGORIES_KEY = ''impostor_custom_categories_v1''"

text \<open>
  Every storage call is raced against a 5000 ms timer by \<open>withTimeout\<close>. The call either
  completes in time, rejects, or is still pending when the timer fires. What happens is
  input to the program: each function that touches the storage takes one \<open>io\<close> value per
  call it may make. A call that is still pending has had no effect on the store when the
  function returns; whether it lands later is outside the model.
\<close>

datatype io = Completed | Failed | Pending

fun safeStorageGet :: "io \<Rightarrow> storage \<Rightarrow> string \<Rightarrow> blob option" where
  "safeStorageGet Completed store key = store key"
| "safeStorageGet Failed store key = None"
| "safeStorageGet Pending store key = None"

fun safeStorageSet :: "io \<Rightarrow> storage \<Rightarrow> string \<Rightarrow> blob \<Rightarrow> bool \<times> storage" where
  "safeStorageSet Completed store key v = (True, store(key \<mapsto> v))"
| "safeStorageSet Failed store key v = (False, store)"
| "safeStorageSet Pending store key v = (True, store)"

fun safeStorageRemove :: "io \<Rightarrow> storage \<Rightarrow> string \<Rightarrow> bool \<times> storage" where
  "safeStorageRemove Completed store key = (True, store(key := None))"
| "safeStorageRemove Failed store key = (False, store)"
| "safeStorageRemove Pending store key = (True, store)"

text \<open>
  \<open>safeJsonParse(json, validator)\<close>: \<open>null\<close> for a missing or empty text, for a text that
  does not parse and for a value the validator rejects.
\<close>

fun safeJsonParse :: "blob option \<Rightarrow> (json \<Rightarrow> bool) \<Rightarrow> json option" where
  "safeJsonParse None validator = None"
| "safeJsonParse (Some Garbage) validator = None"
| "safeJsonParse (Some (Json parsed)) validator =
     (if \<not> validator parsed then None else Some parsed)"

text \<open>
  \<open>typeof data === 'object'\<close> for a truthy \<open>data\<close>: objects and arrays. Property access
  \<open>data.key\<close> on such a value: arrays have none of the properties read here.
\<close>

fun is_object :: "json \<Rightarrow> bool" where
  "is_object (JObj kvs) = True"
| "is_object (JArr elems) = True"
| "is_object _ = False"

fun get_prop :: "json \<Rightarrow> string \<Rightarrow> json option" where
  "get_prop (JObj kvs) key = map_of kvs key"
| "get_prop _ key = None"

fun is_string :: "json \<Rightarrow> bool" where
  "is_string (JStr s) = True"
| "is_string _ = False"

fun is_string_array :: "json \<Rightarrow> bool" where
  "is_string_array (JArr elems) = list_all is_string elems"
| "is_string_array _ = False"

definition isValidGameState :: "json \<Rightarrow> bool" where
  "isValidGameState data =
     (if \<not> is_object data then False
      else if get_prop data ''players'' \<noteq> None \<and> \<not> is_string_array (the (get_prop data ''players''))
        then False
      else if get_prop data ''selectedCategory'' \<noteq> None
              \<and> \<not> is_string (the (get_prop data ''selectedCategory''))
        then False
      else if get_prop data ''selectedVariant'' \<noteq> None
              \<and> \<not> is_string (the (get_prop data ''selectedVariant''))
        then False
      else True)"

text \<open>
  \<open>loadGameState\<close>: the result and the store afterwards. The logging calls are left
  out; nothing inside the \<open>try\<close> block can throw in this model.
\<close>

definition loadGameState :: "io \<Rightarrow> io \<Rightarrow> storage \<Rightarrow> json \<times> storage" where
  "loadGameState io_get io_remove store =
     (let saved = safeStorageGet io_get store STORAGE_KEY in
      case safeJsonParse saved isValidGameState of
        Some parsed \<Rightarrow> (parsed, store)
      | None \<Rightarrow>
          (if saved \<noteq> None
           then (JObj [], snd (safeStorageRemove io_remove store STORAGE_KEY))
           else (JObj [], store)))"

text \<open>The game variants and screens, and the state of the game with every field optional.\<close>

datatype GameVariant = classic | double_impostor | accomplices | jester | chaos

datatype PlayerRole = citizen | impostor | jester_role

datatype GameScreen = screen_setup | screen_pass | screen_reveal | screen_playing | screen_end

fun variant_id :: "GameVariant \<Rightarrow> string" where
  "variant_id classic = ''classic''"
| "variant_id double_impostor = ''double-impostor''"
| "variant_id accomplices = ''accomplices''"
| "variant_id jester = ''jester''"
| "variant_id chaos = ''chaos''"

record PlayerRoleInfo =
  role :: PlayerRole
  knowsWord :: bool
  partnerName :: "string option"








subsection \<open>Two environments for concrete runs\<close>

text \<open>
  In \<open>crypto_env\<close> the secure generator delivers the bytes 01 00 00 00 on every call; in
  \<open>fallback_env\<close> it always loses the race against the timer and \<open>Math.random()\<close>
  returns 0.
\<close>

definition crypto_env :: "nat \<Rightarrow> entropy" where
  "crypto_env k =
     \<lparr>crypto = Bytes [1, 0, 0, 0], math_random = \<lparr>significand = 0, places = 0\<rparr>\<rparr>"

definition fallback_env :: "nat \<Rightarrow> entropy" where
  "fallback_env k = \<lparr>crypto = TimedOut, math_random = \<lparr>significand = 0, places = 0\<rparr>\<rparr>"

text \<open>
  The declared types of \<open>interface GameState\<close>, read on a parsed value: what it means
  for a value to be a \<open>Partial<GameState>\<close>. Every field is optional; a field that is
  present has the declared type.
\<close>

definition is_number :: "json \<Rightarrow> bool" where
  "is_number j = (case j of JNum n \<Rightarrow> True | _ \<Rightarrow> False)"

definition is_boolean :: "json \<Rightarrow> bool" where
  "is_boolean j = (case j of JBool b \<Rightarrow> True | _ \<Rightarrow> False)"

definition is_one_of :: "string list \<Rightarrow> json \<Rightarrow> bool" where
  "is_one_of names j = (case j of JStr s \<Rightarrow> s \<in> set names | _ \<Rightarrow> False)"

definition is_array_of :: "(json \<Rightarrow> bool) \<Rightarrow> json \<Rightarrow> bool" where
  "is_array_of p j = (case j of JArr elems \<Rightarrow> list_all p elems | _ \<Rightarrow> False)"

definition optional_field :: "json \<Rightarrow> string \<Rightarrow> (json \<Rightarrow> bool) \<Rightarrow> bool" where
  "optional_field data key p = (case get_prop data key of None \<Rightarrow> True | Some v \<Rightarrow> p v)"

definition required_field :: "json \<Rightarrow> string \<Rightarrow> (json \<Rightarrow> bool) \<Rightarrow> bool" where
  "required_field data key p = (case get_prop data key of None \<Rightarrow> False | Some v \<Rightarrow> p v)"

definition is_PlayerRoleInfo :: "json \<Rightarrow> bool" where
  "is_PlayerRoleInfo j =
     (required_field j ''role'' (is_one_of [''citizen'', ''impostor'', ''jester'']) \<and>
      required_field j ''knowsWord'' is_boolean \<and>
      optional_field j ''partnerName'' is_string)"

definition conforms_Partial_GameState :: "json \<Rightarrow> bool" where
  "conforms_Partial_GameState data =
     (is_object data \<and>
      optional_field data ''players'' (is_array_of is_string) \<and>
      optional_field data ''selectedCategory'' is_string \<and>
      optional_field data ''selectedVariant''
        (is_one_of (map variant_id [classic, double_impostor, accomplices, jester, chaos])) \<and>
      optional_field data ''shuffledPlayers'' (is_array_of is_string) \<and>
      optional_field data ''currentPlayerIndex'' is_number \<and>
      optional_field data ''impostorIndices'' (is_array_of is_number) \<and>
      optional_field data ''jesterIndex'' is_number \<and>
      optional_field data ''playerRoles'' (is_array_of is_PlayerRoleInfo) \<and>
      optional_field data ''secretWord'' is_string \<and>
      optional_field data ''starterPlayer'' is_string \<and>
      optional_field data ''currentScreen''
        (is_one_of [''setup'', ''pass'', ''reveal'', ''playing'', ''end'']))"

section \<open>The category store\<close>

text \<open>
  A \<open>Record<string, Category>\<close> has own properties and a prototype. Its own properties
  are an association list in the order in which \<open>Object.entries\<close> enumerates them: keys
  that are array indices (canonical decimal numerals below \<open>2^32 - 1\<close>) in ascending
  order first, then the other keys in the order of their creation. Assigning to an
  existing own key keeps its place.
\<close>

fun digits_value :: "string \<Rightarrow> nat \<Rightarrow> nat option" where
  "digits_value [] acc = Some acc"
| "digits_value (c # cs) acc =
     (if 48 \<le> (of_char c :: nat) \<and> (of_char c :: nat) \<le> 57
      then digits_value cs (10 * acc + ((of_char c :: nat) - 48))
      else None)"

definition array_index :: "string \<Rightarrow> nat option" where
  "array_index key =
     (if key = [] then None
      else if hd key = CHR ''0'' \<and> 1 < length key then None
      else (case digits_value key 0 of
              Some i \<Rightarrow> (if i < 2 ^ 32 - 1 then Some i else None)
            | None \<Rightarrow> None))"

fun insert_index :: "nat \<Rightarrow> string \<Rightarrow> 'v \<Rightarrow> (string \<times> 'v) list \<Rightarrow> (string \<times> 'v) list" where
  "insert_index i key v [] = [(key, v)]"
| "insert_index i key v ((k, w) # rest) =
     (case array_index k of
        Some j \<Rightarrow>
          (if j < i then (k, w) # insert_index i key v rest else (key, v) # (k, w) # rest)
      | None \<Rightarrow> (key, v) # (k, w) # rest)"

fun replace_value :: "string \<Rightarrow> 'v \<Rightarrow> (string \<times> 'v) list \<Rightarrow> (string \<times> 'v) list" where
  "replace_value key v [] = []"
| "replace_value key v ((k, w) # rest) =
     (if k = key then (k, v) # rest else (k, w) # replace_value key v rest)"

text \<open>Creating or overwriting an own property, and \<open>delete\<close>.\<close>

definition obj_set :: "string \<Rightarrow> 'v \<Rightarrow> (string \<times> 'v) list \<Rightarrow> (string \<times> 'v) list" where
  "obj_set key v obj =
     (if map_of obj key \<noteq> None
      then replace_value key v obj
      else (case array_index key of
              Some i \<Rightarrow> insert_index i key v obj
            | None \<Rightarrow> obj @ [(key, v)]))"

definition obj_delete :: "string \<Rightarrow> (string \<times> 'v) list \<Rightarrow> (string \<times> 'v) list" where
  "obj_delete key obj = filter (\<lambda>(k, w). k \<noteq> key) obj"

text \<open>
  Category objects and word arrays are shared between \<open>DEFAULT_CATEGORIES\<close> and
  \<open>CATEGORIES\<close> and are changed in place by some operations, so both live in a store:
  \<open>objs\<close> maps a reference to a category object, whose \<open>words\<close> field is a reference
  into \<open>arrs\<close>. Every field of a category object may be missing (\<open>undefined\<close>), since
  some operations build objects without them. \<open>isCustom\<close> is any JSON value, since the
  validator of stored categories does not look at it. An element of a word array is a
  string or \<open>undefined\<close>. Properties of a category object other than these four are not
  modelled.

  The two records of categories hold references to category objects.
  \<open>DEFAULT_CATEGORIES\<close> always has the prototype \<open>Object.prototype\<close>. The prototype of
  \<open>CATEGORIES\<close> is \<open>Object.prototype\<close> (\<open>proto = None\<close>) unless an assignment to the key
  \<open>__proto__\<close> has replaced it by a category object, to which \<open>proto\<close> then refers.
  \<open>persisted\<close> is AsyncStorage.
\<close>

record Category =
  emoji :: "string option"
  name :: "string option"
  words :: "nat option"
  isCustom :: "json option"

definition no_properties :: Category where
  "no_properties = \<lparr>emoji = None, name = None, words = None, isCustom = None\<rparr>"

record store =
  objs :: "nat \<Rightarrow> Category"
  arrs :: "nat \<Rightarrow> string option list"
  next_obj :: nat
  next_arr :: nat
  DEFAULT_CATEGORIES :: "(string \<times> nat) list"
  CATEGORIES :: "(string \<times> nat) list"
  proto :: "nat option"
  persisted :: storage

definition new_array :: "string option list \<Rightarrow> store \<Rightarrow> nat \<times> store" where
  "new_array ws st =
     (next_arr st, st\<lparr>arrs := (arrs st)(next_arr st := ws), next_arr := Suc (next_arr st)\<rparr>)"

definition new_object :: "Category \<Rightarrow> store \<Rightarrow> nat \<times> store" where
  "new_object c st =
     (next_obj st, st\<lparr>objs := (objs st)(next_obj st := c), next_obj := Suc (next_obj st)\<rparr>)"

text \<open>The word list of a category object: its array, or \<open>undefined\<close>.\<close>

definition word_list :: "store \<Rightarrow> Category \<Rightarrow> string option list option" where
  "word_list st c = map_option (arrs st) (words c)"

text \<open>The object that is the prototype of \<open>CATEGORIES\<close>, when it is not \<open>Object.prototype\<close>.\<close>

definition proto_object :: "store \<Rightarrow> Category option" where
  "proto_object st = map_option (objs st) (proto st)"

text \<open>
  What \<open>record[key]\<close> finds, given the prototype object of the record. An own property
  is a category object. Otherwise the key \<open>__proto__\<close> gives the prototype itself; a
  prototype set by assignment has the own properties \<open>name\<close> and \<open>emoji\<close> at most (lemma
  \<open>reachable_invariant\<close>), which are strings; and \<open>Object.prototype\<close> has its eleven
  methods. Everything an object inherits is truthy, except an empty string.
\<close>

datatype found = Own nat | Prototype | Text string | Method string | Missing

definition OBJECT_METHODS :: "string list" where
  "OBJECT_METHODS =
     [''constructor'', ''toString'', ''toLocaleString'', ''valueOf'', ''hasOwnProperty'',
      ''isPrototypeOf'', ''propertyIsEnumerable'', ''__defineGetter__'', ''__defineSetter__'',
      ''__lookupGetter__'', ''__lookupSetter__'']"

definition in_Object_prototype :: "string \<Rightarrow> found" where
  "in_Object_prototype key = (if key \<in> set OBJECT_METHODS then Method key else Missing)"

definition lookup :: "Category option \<Rightarrow> (string \<times> nat) list \<Rightarrow> string \<Rightarrow> found" where
  "lookup prototype rec key =
     (case map_of rec key of
        Some r \<Rightarrow> Own r
      | None \<Rightarrow>
          if key = ''__proto__'' then Prototype
          else
            (case prototype of
               None \<Rightarrow> in_Object_prototype key
             | Some p \<Rightarrow>
                 if key = ''name'' \<and> name p \<noteq> None then Text (the (name p))
                 else if key = ''emoji'' \<and> emoji p \<noteq> None then Text (the (emoji p))
                 else in_Object_prototype key))"

fun truthy_found :: "found \<Rightarrow> bool" where
  "truthy_found (Own r) = True"
| "truthy_found Prototype = True"
| "truthy_found (Text s) = (s \<noteq> [])"
| "truthy_found (Method m) = True"
| "truthy_found Missing = False"

text \<open>
  Reading the properties \<open>emoji\<close>, \<open>name\<close>, \<open>words\<close> and \<open>isCustom\<close> of what was found: a
  method has a \<open>name\<close> (the function \<open>Object\<close> for \<open>constructor\<close>) and none of the others; a
  string has none of them.
\<close>

definition properties_of :: "store \<Rightarrow> Category option \<Rightarrow> found \<Rightarrow> Category" where
  "properties_of st prototype v =
     (case v of
        Own r \<Rightarrow> objs st r
      | Prototype \<Rightarrow> (case prototype of None \<Rightarrow> no_properties | Some p \<Rightarrow> p)
      | Text s \<Rightarrow> no_properties
      | Method m \<Rightarrow> no_properties\<lparr>name := Some (if m = ''constructor'' then ''Object'' else m)\<rparr>
      | Missing \<Rightarrow> no_properties)"

text \<open>
  \<open>{ ...value }\<close>: the own enumerable properties. A function and \<open>Object.prototype\<close> have
  none; those of a string are its characters under their indices, which are not among
  the four modelled properties.
\<close>

definition spread_of :: "store \<Rightarrow> Category option \<Rightarrow> found \<Rightarrow> Category" where
  "spread_of st prototype v =
     (case v of
        Own r \<Rightarrow> objs st r
      | Prototype \<Rightarrow> (case prototype of None \<Rightarrow> no_properties | Some p \<Rightarrow> p)
      | Text s \<Rightarrow> no_properties
      | Method m \<Rightarrow> no_properties
      | Missing \<Rightarrow> no_properties)"

text \<open>The object that a property assignment to what was found would change.\<close>

definition found_ref :: "store \<Rightarrow> found \<Rightarrow> nat option" where
  "found_ref st v = (case v of Own r \<Rightarrow> Some r | Prototype \<Rightarrow> proto st | _ \<Rightarrow> None)"

text \<open>
  \<open>CATEGORIES[key] = object\<close>: an own property is overwritten; otherwise the key
  \<open>__proto__\<close> makes the object the prototype of \<open>CATEGORIES\<close> and creates no property;
  any other key gets a new own property.
\<close>

definition assign_category :: "string \<Rightarrow> nat \<Rightarrow> store \<Rightarrow> store" where
  "assign_category key r st =
     (if map_of (CATEGORIES st) key = None \<and> key = ''__proto__''
      then st\<lparr>proto := Some r\<rparr>
      else st\<lparr>CATEGORIES := obj_set key r (CATEGORIES st)\<rparr>)"

text \<open>
  \<open>getAllWords\<close>: \<open>flatMap\<close> appends the words of a category that has a word array, and
  appends the single element \<open>undefined\<close> for a category that has none.
\<close>

definition getAllWords :: "store \<Rightarrow> (string \<times> nat) list \<Rightarrow> string option list" where
  "getAllWords st categories =
     concat (map (\<lambda>(key, category).
                    case word_list st (objs st category) of
                      Some ws \<Rightarrow> ws
                    | None \<Rightarrow> [None])
               (filter (\<lambda>(key, category). key \<noteq> ''mixta'') categories))"

text \<open>
  \<open>{...categories, mixta: {...categories.mixta, words: getAllWords(categories)}}\<close>: a new
  array, a new category object for \<open>mixta\<close>, and a new record, with the prototype
  \<open>Object.prototype\<close>, in which \<open>mixta\<close> refers to it. The operations assign the result to
  \<open>CATEGORIES\<close>; \<open>set_CATEGORIES_mixed\<close> is that assignment.
\<close>

definition updateMixedCategory ::
  "store \<Rightarrow> Category option \<Rightarrow> (string \<times> nat) list \<Rightarrow> (string \<times> nat) list \<times> store" where
  "updateMixedCategory st prototype categories =
     (let (a, st1) = new_array (getAllWords st categories) st;
          old = spread_of st prototype (lookup prototype categories ''mixta'');
          (m, st2) = new_object (old\<lparr>words := Some a\<rparr>) st1
      in (obj_set ''mixta'' m categories, st2))"

definition set_CATEGORIES_mixed :: "store \<Rightarrow> Category option \<Rightarrow> (string \<times> nat) list \<Rightarrow> store" where
  "set_CATEGORIES_mixed st prototype categories =
     (let (cats, st1) = updateMixedCategory st prototype categories
      in st1\<lparr>CATEGORIES := cats, proto := None\<rparr>)"

text \<open>
  The table of shipped categories (the object literal \<open>DEFAULT_CATEGORIES\<close>, twelve
  entries with \<open>mixta\<close> first and several hundred words) is a parameter: a list of key,
  emoji, name and words. Loading the module builds one object and one array per entry,
  copies the record into \<open>CATEGORIES\<close> (\<open>{ ...DEFAULT_CATEGORIES }\<close>, which copies the
  references) and fills \<open>mixta\<close>. Every entry becomes an own property; the shipped
  literal has no key \<open>__proto__\<close>, which would set the prototype instead.
\<close>

type_synonym shipped = "(string \<times> string \<times> string \<times> string list) list"

fun build_literal :: "shipped \<Rightarrow> (string \<times> nat) list \<Rightarrow> store \<Rightarrow> (string \<times> nat) list \<times> store" where
  "build_literal [] acc st = (acc, st)"
| "build_literal ((key, e, n, ws) # rest) acc st =
     (let (a, st1) = new_array (map Some ws) st;
          (r, st2) = new_object
                       \<lparr>emoji = Some e, name = Some n, words = Some a, isCustom = None\<rparr> st1
      in build_literal rest (obj_set key r acc) st2)"

definition empty_store :: "storage \<Rightarrow> store" where
  "empty_store disk =
     \<lparr>objs = (\<lambda>r. no_properties), arrs = (\<lambda>r. []), next_obj = 0, next_arr = 0,
      DEFAULT_CATEGORIES = [], CATEGORIES = [], proto = None, persisted = disk\<rparr>"

definition module_init :: "shipped \<Rightarrow> storage \<Rightarrow> store" where
  "module_init table disk =
     (let (defaults, st1) = build_literal table [] (empty_store disk);
          st2 = st1\<lparr>DEFAULT_CATEGORIES := defaults, CATEGORIES := defaults\<rparr>
      in set_CATEGORIES_mixed st2 (proto_object st2) (CATEGORIES st2))"

text \<open>Truthiness of a JSON value, and of an optional property.\<close>

fun truthy :: "json \<Rightarrow> bool" where
  "truthy JNull = False"
| "truthy (JBool b) = b"
| "truthy (JNum n) = (n \<noteq> 0)"
| "truthy (JStr s) = (s \<noteq> [])"
| "truthy (JArr elems) = True"
| "truthy (JObj kvs) = True"

definition truthy_opt :: "json option \<Rightarrow> bool" where
  "truthy_opt v = (case v of None \<Rightarrow> False | Some j \<Rightarrow> truthy j)"

text \<open>
  \<open>saveCustomCategories\<close>. A category is written when \<open>DEFAULT_CATEGORIES[key]\<close> is falsy
  or the category is marked custom (then with \<open>isCustom: true\<close>), or when its words, name
  or emoji differ from those read from \<open>DEFAULT_CATEGORIES[key]\<close> as it is now. Two word
  arrays have the same \<open>JSON.stringify\<close> exactly when they are equal, and
  \<open>JSON.stringify(undefined)\<close> is \<open>undefined\<close>. \<open>JSON.stringify\<close> leaves out properties
  that are \<open>undefined\<close> and writes \<open>null\<close> for an \<open>undefined\<close> element of an array. The
  assignment \<open>customCategories['__proto__'] = ...\<close> sets a prototype and creates no
  property, so a category under that key is not written.
\<close>

definition word_json :: "string option \<Rightarrow> json" where
  "word_json w = (case w of None \<Rightarrow> JNull | Some s \<Rightarrow> JStr s)"

definition optional_property :: "string \<Rightarrow> json option \<Rightarrow> (string \<times> json) list" where
  "optional_property key v = (case v of None \<Rightarrow> [] | Some j \<Rightarrow> [(key, j)])"

definition category_json :: "store \<Rightarrow> Category \<Rightarrow> json option \<Rightarrow> json" where
  "category_json st c custom =
     JObj (optional_property ''emoji'' (map_option JStr (emoji c))
           @ optional_property ''name'' (map_option JStr (name c))
           @ optional_property ''words''
               (map_option (\<lambda>ws. JArr (map word_json ws)) (word_list st c))
           @ optional_property ''isCustom'' custom)"

definition custom_entry :: "store \<Rightarrow> string \<times> nat \<Rightarrow> (string \<times> json) list" where
  "custom_entry st entry =
     (case entry of (key, r) \<Rightarrow>
        if key = ''mixta'' then []
        else
          (let category = objs st r;
               found_default = lookup None (DEFAULT_CATEGORIES st) key;
               defaultCategory = properties_of st None found_default;
               written =
                 (if \<not> truthy_found found_default \<or> truthy_opt (isCustom category)
                  then [(key, category_json st category (Some (JBool True)))]
                  else
                    (let wordsChanged = (word_list st category \<noteq> word_list st defaultCategory);
                         metaChanged = (name category \<noteq> name defaultCategory \<or>
                                        emoji category \<noteq> emoji defaultCategory)
                     in if wordsChanged \<or> metaChanged
                        then [(key, category_json st category (isCustom category))]
                        else []))
           in if key = ''__proto__'' then [] else written))"

definition saveCustomCategories :: "io \<Rightarrow> store \<Rightarrow> bool \<times> store" where
  "saveCustomCategories io_set st =
     (let customCategories = concat (map (custom_entry st) (CATEGORIES st));
          (ok, disk) = safeStorageSet io_set (persisted st) CUSTOM_CATEGORIES_KEY
                         (Json (JObj customCategories))
      in (ok, st\<lparr>persisted := disk\<rparr>))"

text \<open>The validators of stored categories.\<close>

definition isValidCategory :: "json \<Rightarrow> bool" where
  "isValidCategory cat =
     (is_object cat \<and>
      (case get_prop cat ''emoji'' of Some v \<Rightarrow> is_string v | None \<Rightarrow> False) \<and>
      (case get_prop cat ''name'' of Some v \<Rightarrow> is_string v | None \<Rightarrow> False) \<and>
      (case get_prop cat ''words'' of Some v \<Rightarrow> is_string_array v | None \<Rightarrow> False))"

text \<open>The decimal numeral of an array index, as \<open>Object.entries\<close> spells it.\<close>

definition digit_char :: "nat \<Rightarrow> char" where
  "digit_char d = char_of (of_char (CHR ''0'') + d)"

fun string_of_nat :: "nat \<Rightarrow> string" where
  "string_of_nat n =
     (let last_digit = [digit_char (n mod 10)]
      in if 10 \<le> n then string_of_nat (n div 10) @ last_digit else last_digit)"

text \<open>\<open>Object.entries\<close> of a parsed value: the fields of an object, the elements of an
  array under their indices.\<close>

fun json_entries :: "json \<Rightarrow> (string \<times> json) list" where
  "json_entries (JObj kvs) = kvs"
| "json_entries (JArr elems) = zip (map string_of_nat [0..<length elems]) elems"
| "json_entries _ = []"

definition isValidCategories :: "json \<Rightarrow> bool" where
  "isValidCategories data = (is_object data \<and> list_all isValidCategory (map snd (json_entries data)))"

fun string_value :: "json \<Rightarrow> string option" where
  "string_value (JStr s) = Some s"
| "string_value _ = None"

fun string_values :: "json \<Rightarrow> string option list" where
  "string_values (JArr elems) = map string_value elems"
| "string_values _ = []"

text \<open>
  \<open>{ ...DEFAULT_CATEGORIES, ...customCategories }\<close>: every parsed category is a new object
  with a new array of words, and becomes an own property under its key, whatever the
  key. The entries have passed \<open>isValidCategories\<close>, so \<open>emoji\<close>, \<open>name\<close> and \<open>words\<close> are
  there.
\<close>

fun spread_parsed :: "(string \<times> json) list \<Rightarrow> (string \<times> nat) list \<Rightarrow> store \<Rightarrow> (string \<times> nat) list \<times> store" where
  "spread_parsed [] acc st = (acc, st)"
| "spread_parsed ((key, cat) # rest) acc st =
     (let (a, st1) = new_array (string_values (the (get_prop cat ''words''))) st;
          (r, st2) = new_object
                       \<lparr>emoji = string_value (the (get_prop cat ''emoji'')),
                        name = string_value (the (get_prop cat ''name'')),
                        words = Some a, isCustom = get_prop cat ''isCustom''\<rparr> st1
      in spread_parsed rest (obj_set key r acc) st2)"

text \<open>
  \<open>loadCustomCategories\<close>. Logging is left out; nothing inside the \<open>try\<close> block can throw
  in this model, so the \<open>catch\<close> branch is not taken.
\<close>

definition loadCustomCategories :: "io \<Rightarrow> io \<Rightarrow> store \<Rightarrow> store" where
  "loadCustomCategories io_get io_remove st =
     (let saved = safeStorageGet io_get (persisted st) CUSTOM_CATEGORIES_KEY in
      case safeJsonParse saved isValidCategories of
        Some customCategories \<Rightarrow>
          (let (cats, st1) = spread_parsed (json_entries customCategories)
                               (DEFAULT_CATEGORIES st) st
           in set_CATEGORIES_mixed st1 None cats)
      | None \<Rightarrow>
          (let st1 = (if saved \<noteq> None
                      then st\<lparr>persisted :=
                             snd (safeStorageRemove io_remove (persisted st) CUSTOM_CATEGORIES_KEY)\<rparr>
                      else st)
           in set_CATEGORIES_mixed st1 None (DEFAULT_CATEGORIES st1)))"

definition resetCategoriesToDefault :: "io \<Rightarrow> store \<Rightarrow> bool \<times> store" where
  "resetCategoriesToDefault io_remove st =
     (let (success, disk) = safeStorageRemove io_remove (persisted st) CUSTOM_CATEGORIES_KEY;
          st1 = st\<lparr>persisted := disk\<rparr>
      in (success, set_CATEGORIES_mixed st1 None (DEFAULT_CATEGORIES st1)))"

text \<open>
  The operations that change one category. An array handed in by the caller
  (\<open>updateCategoryWords\<close>, \<open>createCategory\<close>) is taken as a new array of strings that the
  caller does not keep. \<open>then_save\<close> is the common ending
  \<open>CATEGORIES = updateMixedCategory(CATEGORIES); await saveCustomCategories()\<close>. An
  operation that throws does so before it has changed anything; its result is then the
  error.
\<close>

datatype error = TypeError

definition then_save :: "io \<Rightarrow> store \<Rightarrow> store" where
  "then_save io_set st =
     snd (saveCustomCategories io_set
            (set_CATEGORIES_mixed st (proto_object st) (CATEGORIES st)))"

definition updateCategoryWords :: "io \<Rightarrow> string \<Rightarrow> string list \<Rightarrow> store \<Rightarrow> store" where
  "updateCategoryWords io_set key ws st =
     (if key = ''mixta'' then st
      else
        (let current = lookup (proto_object st) (CATEGORIES st) key in
         if \<not> truthy_found current then st
         else
           (let (a, st1) = new_array (map Some ws) st;
                (r, st2) = new_object ((spread_of st1 (proto_object st1) current)\<lparr>words := Some a\<rparr>) st1
            in then_save io_set (assign_category key r st2))))"

text \<open>
  \<open>addWordToCategory\<close>: \<open>CATEGORIES[key].words.includes(word)\<close> throws a TypeError when
  what \<open>CATEGORIES[key]\<close> finds has no \<open>words\<close>.
\<close>

definition addWordToCategory :: "io \<Rightarrow> string \<Rightarrow> string \<Rightarrow> store \<Rightarrow> error + store" where
  "addWordToCategory io_set key word st =
     (if key = ''mixta'' then Inr st
      else
        (let current = lookup (proto_object st) (CATEGORIES st) key in
         if \<not> truthy_found current then Inr st
         else
           (case words (properties_of st (proto_object st) current) of
              None \<Rightarrow> Inl TypeError
            | Some a \<Rightarrow>
                if Some word \<in> set (arrs st a) then Inr st
                else Inr (then_save io_set
                            (st\<lparr>arrs := (arrs st)(a := arrs st a @ [Some word])\<rparr>)))))"

text \<open>
  \<open>removeWordFromCategory\<close>: the right-hand side \<open>CATEGORIES[key].words.filter(...)\<close> is
  evaluated first and throws a TypeError without \<open>words\<close>; with \<open>words\<close>, what was found
  is a category object, whose \<open>words\<close> property is set to the new array.
\<close>

definition removeWordFromCategory :: "io \<Rightarrow> string \<Rightarrow> string \<Rightarrow> store \<Rightarrow> error + store" where
  "removeWordFromCategory io_set key word st =
     (if key = ''mixta'' then Inr st
      else
        (let current = lookup (proto_object st) (CATEGORIES st) key in
         if \<not> truthy_found current then Inr st
         else
           (case (found_ref st current, words (properties_of st (proto_object st) current)) of
              (Some r, Some a) \<Rightarrow>
                (let (a', st1) = new_array (filter (\<lambda>w. w \<noteq> Some word) (arrs st a)) st
                 in Inr (then_save io_set
                           (st1\<lparr>objs := (objs st1)(r := (objs st1 r)\<lparr>words := Some a'\<rparr>)\<rparr>)))
            | _ \<Rightarrow> Inl TypeError)))"

definition createCategory ::
  "io \<Rightarrow> string \<Rightarrow> string \<Rightarrow> string \<Rightarrow> string list \<Rightarrow> store \<Rightarrow> bool \<times> store" where
  "createCategory io_set key nm em ws st =
     (if truthy_found (lookup (proto_object st) (CATEGORIES st) key) then (False, st)
      else
        (let (a, st1) = new_array (map Some ws) st;
             (r, st2) = new_object
                          \<lparr>emoji = Some em, name = Some nm, words = Some a,
                           isCustom = Some (JBool True)\<rparr> st1
         in (True, then_save io_set (assign_category key r st2))))"

definition deleteCategory :: "io \<Rightarrow> string \<Rightarrow> store \<Rightarrow> bool \<times> store" where
  "deleteCategory io_set key st =
     (if key = ''mixta'' then (False, st)
      else
        (let current = lookup (proto_object st) (CATEGORIES st) key in
         if \<not> truthy_opt (isCustom (properties_of st (proto_object st) current)) then (False, st)
         else (True, then_save io_set (st\<lparr>CATEGORIES := obj_delete key (CATEGORIES st)\<rparr>))))"

text \<open>
  \<open>updateCategoryMeta(key, updates)\<close>: each of \<open>name\<close> and \<open>emoji\<close> may be missing from
  \<open>updates\<close> (\<open>None\<close>) or be there, with a string or with \<open>undefined\<close> (\<open>Some\<close> of the value
  read afterwards). The category gets a new object; \<open>mixta\<close> is not recomputed.
\<close>

definition updateCategoryMeta ::
  "io \<Rightarrow> string \<Rightarrow> string option option \<Rightarrow> string option option \<Rightarrow> store \<Rightarrow> store" where
  "updateCategoryMeta io_set key upd_name upd_emoji st =
     (if key = ''mixta'' then st
      else
        (let current = lookup (proto_object st) (CATEGORIES st) key in
         if \<not> truthy_found current then st
         else
           (let c = spread_of st (proto_object st) current;
                c1 = (case upd_name of None \<Rightarrow> c | Some n \<Rightarrow> c\<lparr>name := n\<rparr>);
                c2 = (case upd_emoji of None \<Rightarrow> c1 | Some e \<Rightarrow> c1\<lparr>emoji := e\<rparr>);
                (r, st1) = new_object c2 st
            in snd (saveCustomCategories io_set (assign_category key r st1)))))"

text \<open>
  \<open>isCategoryModified\<close>. When \<open>DEFAULT_CATEGORIES[key]\<close> is truthy and \<open>CATEGORIES[key]\<close> is
  \<open>undefined\<close>, reading \<open>current.words\<close> throws a TypeError.
\<close>

definition isCategoryModified :: "string \<Rightarrow> store \<Rightarrow> error + bool" where
  "isCategoryModified key st =
     (if key = ''mixta'' then Inr False
      else
        (let found_default = lookup None (DEFAULT_CATEGORIES st) key in
         if \<not> truthy_found found_default then Inr True
         else
           (let found_current = lookup (proto_object st) (CATEGORIES st) key in
            if found_current = Missing then Inl TypeError
            else
              (let current = properties_of st (proto_object st) found_current;
                   defaultCat = properties_of st None found_default
               in Inr (word_list st current \<noteq> word_list st defaultCat \<or>
                       name current \<noteq> name defaultCat \<or>
                       emoji current \<noteq> emoji defaultCat)))))"

definition resetCategoryToDefault :: "io \<Rightarrow> string \<Rightarrow> store \<Rightarrow> store" where
  "resetCategoryToDefault io_set key st =
     (let found_default = lookup None (DEFAULT_CATEGORIES st) key in
      if key = ''mixta'' \<or> \<not> truthy_found found_default then st
      else
        (let (r, st1) = new_object (spread_of st None found_default) st
         in then_save io_set (assign_category key r st1)))"


text \<open>
  The claim about \<open>mixta\<close> speaks of the concatenation of the word lists of all other
  categories; a category without a word list adds nothing to that concatenation. The
  invariant: \<open>mixta\<close> is an own category whose word list is this concatenation.
\<close>

definition concatenation_of :: "store \<Rightarrow> (string \<times> nat) list \<Rightarrow> string option list" where
  "concatenation_of st categories =
     concat (map (\<lambda>(key, category).
                    case word_list st (objs st category) of
                      Some ws \<Rightarrow> ws
                    | None \<Rightarrow> [])
               (filter (\<lambda>(key, category). key \<noteq> ''mixta'') categories))"

definition concatenated_words :: "store \<Rightarrow> string option list" where
  "concatenated_words st = concatenation_of st (CATEGORIES st)"

definition mixta_words :: "store \<Rightarrow> string option list option" where
  "mixta_words st =
     (case map_of (CATEGORIES st) ''mixta'' of
        Some m \<Rightarrow> word_list st (objs st m)
      | None \<Rightarrow> None)"

definition mixta_invariant :: "store \<Rightarrow> bool" where
  "mixta_invariant st = (mixta_words st = Some (concatenated_words st))"


text \<open>
  References in use are allocated: the two records refer to objects below \<open>next_obj\<close>,
  and every such object that has a word array refers to an array below \<open>next_arr\<close>.
\<close>

definition allocated :: "store \<Rightarrow> bool" where
  "allocated st =
     ((\<forall>r \<in> snd ` set (CATEGORIES st). r < next_obj st) \<and>
      (\<forall>r \<in> snd ` set (DEFAULT_CATEGORIES st). r < next_obj st) \<and>
      (\<forall>r a. r < next_obj st \<and> words (objs st r) = Some a \<longrightarrow> a < next_arr st))"

text \<open>
  What holds in every state the store can be in: references are allocated, \<open>mixta\<close> is an
  own category with a word array, and a prototype set by assignment is an allocated
  object without \<open>words\<close> and without \<open>isCustom\<close>.
\<close>

definition settled :: "store \<Rightarrow> bool" where
  "settled st =
     (allocated st \<and>
      (\<exists>m a. map_of (CATEGORIES st) ''mixta'' = Some m \<and> words (objs st m) = Some a) \<and>
      (\<forall>p. proto st = Some p \<longrightarrow>
         p < next_obj st \<and> words (objs st p) = None \<and> isCustom (objs st p) = None))"

text \<open>
  What holds in addition when only ordinary keys are used (see \<open>ordinary_key\<close> below): the
  prototype of \<open>CATEGORIES\<close> is \<open>Object.prototype\<close>, every category of both records has a
  word array, and \<open>mixta\<close> satisfies its invariant.
\<close>

definition every_category_has_words :: "store \<Rightarrow> bool" where
  "every_category_has_words st =
     (\<forall>r \<in> snd ` set (CATEGORIES st) \<union> snd ` set (DEFAULT_CATEGORIES st).
        words (objs st r) \<noteq> None)"

definition tidy :: "store \<Rightarrow> bool" where
  "tidy st =
     (allocated st \<and> proto st = None \<and> every_category_has_words st \<and> mixta_invariant st)"

text \<open>
  The states the store can be in: the state after loading the module, and every state
  that a public operation makes of such a state, whatever the key and whatever the
  storage calls do. An operation that throws leaves the state as it was.
\<close>

inductive reachable :: "shipped \<Rightarrow> store \<Rightarrow> bool" for table :: shipped where
  init: "reachable table (module_init table disk)"
| load: "reachable table st \<Longrightarrow> reachable table (loadCustomCategories io_get io_remove st)"
| update_words: "reachable table st \<Longrightarrow> reachable table (updateCategoryWords io_set key ws st)"
| add_word: "reachable table st \<Longrightarrow> addWordToCategory io_set key word st = Inr st' \<Longrightarrow>
     reachable table st'"
| remove_word: "reachable table st \<Longrightarrow> removeWordFromCategory io_set key word st = Inr st' \<Longrightarrow>
     reachable table st'"
| create: "reachable table st \<Longrightarrow> reachable table (snd (createCategory io_set key nm em ws st))"
| delete: "reachable table st \<Longrightarrow> reachable table (snd (deleteCategory io_set key st))"
| update_meta: "reachable table st \<Longrightarrow>
     reachable table (updateCategoryMeta io_set key upd_name upd_emoji st)"
| reset_one: "reachable table st \<Longrightarrow> reachable table (resetCategoryToDefault io_set key st)"
| reset_all: "reachable table st \<Longrightarrow> reachable table (snd (resetCategoriesToDefault io_remove st))"

text \<open>
  A key is ordinary when it is not the name of a property of \<open>Object.prototype\<close>. The
  states reached when \<open>updateCategoryMeta\<close> and \<open>resetCategoryToDefault\<close> are called with
  ordinary keys only; the other operations take any key.
\<close>

definition ordinary_key :: "string \<Rightarrow> bool" where
  "ordinary_key key = (key \<noteq> ''__proto__'' \<and> key \<notin> set OBJECT_METHODS)"

inductive ordinary_reachable :: "shipped \<Rightarrow> store \<Rightarrow> bool" for table :: shipped where
  init: "ordinary_reachable table (module_init table disk)"
| load: "ordinary_reachable table st \<Longrightarrow>
     ordinary_reachable table (loadCustomCategories io_get io_remove st)"
| update_words: "ordinary_reachable table st \<Longrightarrow>
     ordinary_reachable table (updateCategoryWords io_set key ws st)"
| add_word: "ordinary_reachable table st \<Longrightarrow>
     addWordToCategory io_set key word st = Inr st' \<Longrightarrow> ordinary_reachable table st'"
| remove_word: "ordinary_reachable table st \<Longrightarrow>
     removeWordFromCategory io_set key word st = Inr st' \<Longrightarrow> ordinary_reachable table st'"
| create: "ordinary_reachable table st \<Longrightarrow>
     ordinary_reachable table (snd (createCategory io_set key nm em ws st))"
| delete: "ordinary_reachable table st \<Longrightarrow>
     ordinary_reachable table (snd (deleteCategory io_set key st))"
| update_meta: "ordinary_reachable table st \<Longrightarrow> ordinary_key key \<Longrightarrow>
     ordinary_reachable table (updateCategoryMeta io_set key upd_name upd_emoji st)"
| reset_one: "ordinary_reachable table st \<Longrightarrow> ordinary_key key \<Longrightarrow>
     ordinary_reachable table (resetCategoryToDefault io_set key st)"
| reset_all: "ordinary_reachable table st \<Longrightarrow>
     ordinary_reachable table (snd (resetCategoriesToDefault io_remove st))"

text \<open>
  An excerpt of the shipped table for concrete runs: three of the twelve categories with
  their first words. The emoji are written as names.
\<close>

definition sample_table :: shipped where
  "sample_table =
     [(''mixta'', ''dice'', ''Mixta'', []),
      (''comida'', ''pizza'', ''Comida'', [''Hamburguesa'', ''Sushi'', ''Pizza'']),
      (''animales'', ''lion'', ''Animales'', [''Perro'', ''Gato''])]"

section \<open>Starting a game\<close>

text \<open>
  The configuration of a variant. The display texts (\<open>name\<close>, \<open>emoji\<close>, \<open>description\<close>)
  play no part in the assignment and are left out.
\<close>

record GameVariantConfig =
  variant_of :: GameVariant
  minPlayers :: nat
  impostorCount :: nat
  hasJester :: bool
  impostorsKnowEachOther :: bool

fun GAME_VARIANTS :: "GameVariant \<Rightarrow> GameVariantConfig" where
  "GAME_VARIANTS classic =
     \<lparr>variant_of = classic, minPlayers = 3, impostorCount = 1, hasJester = False,
      impostorsKnowEachOther = False\<rparr>"
| "GAME_VARIANTS double_impostor =
     \<lparr>variant_of = double_impostor, minPlayers = 5, impostorCount = 2, hasJester = False,
      impostorsKnowEachOther = False\<rparr>"
| "GAME_VARIANTS accomplices =
     \<lparr>variant_of = accomplices, minPlayers = 5, impostorCount = 2, hasJester = False,
      impostorsKnowEachOther = True\<rparr>"
| "GAME_VARIANTS jester =
     \<lparr>variant_of = jester, minPlayers = 4, impostorCount = 1, hasJester = True,
      impostorsKnowEachOther = False\<rparr>"
| "GAME_VARIANTS chaos =
     \<lparr>variant_of = chaos, minPlayers = 6, impostorCount = 2, hasJester = True,
      impostorsKnowEachOther = False\<rparr>"

text \<open>
  The part of the game state that \<open>startNewGame\<close> returns. \<open>secretWord\<close> and
  \<open>starterPlayer\<close> are \<open>undefined\<close> (\<open>None\<close>) when the index drawn for them is \<open>NaN\<close> or
  outside the array, which happens for an empty word list or an empty player list;
  \<open>secretWord\<close> is \<open>undefined\<close> as well when the element drawn is.
\<close>

record Round =
  shuffledPlayers :: "string list"
  impostorIndices :: "nat list"
  jesterIndex :: int
  playerRoles :: "PlayerRoleInfo list"
  secretWord :: "string option"
  starterPlayer :: "string option"

text \<open>\<open>array[index]\<close> for an index that may be \<open>NaN\<close> or out of range.\<close>

definition element_at :: "'a list \<Rightarrow> nat option \<Rightarrow> 'a option" where
  "element_at xs index =
     (case index of
        None \<Rightarrow> None
      | Some i \<Rightarrow> (if i < length xs then Some (xs ! i) else None))"

text \<open>The callback of \<open>shuffledPlayers.map\<close> that builds the role of the player at \<open>index\<close>.\<close>

definition role_at ::
  "GameVariantConfig \<Rightarrow> string list \<Rightarrow> nat list \<Rightarrow> int \<Rightarrow> nat \<Rightarrow> PlayerRoleInfo" where
  "role_at variantConfig shuffled impostors jesterIdx index =
     (if index \<in> set impostors
      then \<lparr>role = impostor, knowsWord = False,
            partnerName =
              (if impostorsKnowEachOther variantConfig \<and> 1 < impostorCount variantConfig
               then element_at shuffled (find (\<lambda>i. i \<noteq> index) impostors)
               else None)\<rparr>
      else if int index = jesterIdx
      then \<lparr>role = jester_role, knowsWord = True, partnerName = None\<rparr>
      else \<lparr>role = citizen, knowsWord = True, partnerName = None\<rparr>)"

text \<open>
  \<open>CATEGORIES[category]?.words || CATEGORIES.mixta.words\<close>: an array is truthy even when
  empty. Without a word array under \<open>category\<close> the words of \<open>mixta\<close> are taken; when
  \<open>CATEGORIES.mixta\<close> is \<open>undefined\<close>, or has no \<open>words\<close> (so that \<open>words.length\<close> is read
  of \<open>undefined\<close>), a TypeError is thrown.
\<close>

definition words_for :: "store \<Rightarrow> string \<Rightarrow> error + string option list" where
  "words_for st category =
     (let found_category = lookup (proto_object st) (CATEGORIES st) category;
          category_words =
            (if found_category = Missing then None
             else word_list st (properties_of st (proto_object st) found_category))
      in case category_words of
           Some ws \<Rightarrow> Inr ws
         | None \<Rightarrow>
             (let found_mixta = lookup (proto_object st) (CATEGORIES st) ''mixta'' in
              if found_mixta = Missing then Inl TypeError
              else (case word_list st (properties_of st (proto_object st) found_mixta) of
                      Some ws \<Rightarrow> Inr ws
                    | None \<Rightarrow> Inl TypeError)))"

text \<open>
  The body of \<open>startNewGame\<close> for a given \<open>variantConfig\<close>. It reads the draws of \<open>env\<close>
  from number \<open>n\<close> on and returns the number of the next draw with the round. The
  players are given by the content of their array; \<open>shuffleArray\<close> works on a copy, whose
  content after the loop is what \<open>shuffle_loop\<close> returns.
\<close>

definition startNewGame_with ::
  "GameVariantConfig \<Rightarrow> (nat \<Rightarrow> entropy) \<Rightarrow> nat \<Rightarrow> string list \<Rightarrow> string \<Rightarrow> store
     \<Rightarrow> error + (Round \<times> nat)" where
  "startNewGame_with variantConfig env n players category st =
     (let (shuffled, n1) = shuffle_loop env n (length players - 1) players;
          playerCount = length shuffled;
          (impostors, n2) = selectUniqueIndices env n1 (impostorCount variantConfig) playerCount [];
          (jesterIdx, n3) =
            (if hasJester variantConfig
             then (let (jesterIndices, k) = selectUniqueIndices env n2 1 playerCount impostors
                   in (case jesterIndices of [] \<Rightarrow> - 1 | j # rest \<Rightarrow> int j, k))
             else (- 1, n2));
          roles = map (role_at variantConfig shuffled impostors jesterIdx) [0..<playerCount]
      in case words_for st category of
           Inl e \<Rightarrow> Inl e
         | Inr ws \<Rightarrow>
             (let wordIndex = secureRandom (env n3) (length ws);
                  starterIndex = secureRandom (env (Suc n3)) playerCount
              in Inr (\<lparr>shuffledPlayers = shuffled, impostorIndices = impostors,
                        jesterIndex = jesterIdx, playerRoles = roles,
                        secretWord = Option.bind (element_at ws wordIndex) id,
                        starterPlayer = element_at shuffled starterIndex\<rparr>,
                      Suc (Suc n3))))"

definition startNewGame ::
  "(nat \<Rightarrow> entropy) \<Rightarrow> nat \<Rightarrow> string list \<Rightarrow> string \<Rightarrow> GameVariant \<Rightarrow> store
     \<Rightarrow> error + (Round \<times> nat)" where
  "startNewGame env n players category variant st =
     startNewGame_with (GAME_VARIANTS variant) env n players category st"

text \<open>What the first three steps of \<open>startNewGame\<close> select.\<close>

definition selection_ok :: "GameVariantConfig \<Rightarrow> nat \<Rightarrow> nat list \<Rightarrow> int \<Rightarrow> bool" where
  "selection_ok cfg playerCount impostors jesterIdx =
     (distinct impostors \<and> set impostors \<subseteq> {0..<playerCount} \<and>
      length impostors = impostorCount cfg \<and>
      (if hasJester cfg
       then 0 \<le> jesterIdx \<and> nat jesterIdx < playerCount \<and> nat jesterIdx \<notin> set impostors
       else jesterIdx = - 1))"


section \<open>Proofs\<close>

subsection \<open>secureRandom stays in range\<close>

lemma getUint32_bound: "getUint32 bs = Some v \<Longrightarrow> v < 2 ^ 32"
proof (induction bs rule: getUint32.induct)
  case (1 b0 b1 b2 b3 rest)
  have "unat b0 < 2 ^ 8" "unat b1 < 2 ^ 8" "unat b2 < 2 ^ 8" "unat b3 < 2 ^ 8"
    using unsigned_less [of b0] unsigned_less [of b1] unsigned_less [of b2]
      unsigned_less [of b3] by simp_all
  with 1 show ?case by auto
qed simp_all

lemma bit_length_bounds: "0 < n \<Longrightarrow> 2 ^ (bit_length n - 1) \<le> n \<and> n < 2 ^ bit_length n"
proof (induction n rule: bit_length.induct)
  case (1 n)
  show ?case
  proof (cases "n div 2 = 0")
    case True
    with 1 have "n = Suc 0" by (simp add: div_eq_0_iff)
    then show ?thesis by (simp add: bit_length.simps [of "Suc 0"] bit_length.simps [of 0])
  next
    case False
    then have pos: "0 < n div 2" by simp
    from 1 have n: "n \<noteq> 0" by simp
    from "1.IH" [OF n pos]
    have lo: "2 ^ (bit_length (n div 2) - 1) \<le> n div 2" and hi: "n div 2 < 2 ^ bit_length (n div 2)"
      by simp_all
    have b: "bit_length n = Suc (bit_length (n div 2))"
      using n by (simp add: bit_length.simps [of n])
    have bpos: "0 < bit_length (n div 2)"
      using pos by (simp add: bit_length.simps [of "n div 2"])
    have "(2::nat) ^ bit_length (n div 2) = 2 * 2 ^ (bit_length (n div 2) - 1)"
      using bpos by (cases "bit_length (n div 2)") simp_all
    with lo have "2 ^ bit_length (n div 2) \<le> 2 * (n div 2)" by linarith
    also have "\<dots> \<le> n" by simp
    finally have l: "2 ^ (bit_length n - 1) \<le> n" by (simp add: b)
    from hi have "n div 2 + 1 \<le> 2 ^ bit_length (n div 2)" by simp
    then have "2 * (n div 2) + 2 \<le> 2 * 2 ^ bit_length (n div 2)" by simp
    moreover have "n \<le> 2 * (n div 2) + 1" by presburger
    ultimately have "n < 2 ^ bit_length n" by (simp add: b)
    with l show ?thesis by simp
  qed
qed

lemma round_half_even_upper: "2 * (round_half_even n s * 2 ^ s) \<le> 2 * n + 2 ^ s"
proof -
  have n: "n = n div 2 ^ s * 2 ^ s + n mod 2 ^ s"
    by (rule div_mult_mod_eq [symmetric])
  show ?thesis
  proof (cases "2 * (n mod 2 ^ s) < 2 ^ s \<or> (2 * (n mod 2 ^ s) = 2 ^ s \<and> even (n div 2 ^ s))")
    case True
    then have eq: "round_half_even n s = n div 2 ^ s"
      by (auto simp: round_half_even_def Let_def)
    have "n div 2 ^ s * 2 ^ s \<le> n" by simp
    then show ?thesis unfolding eq by linarith
  next
    case False
    then have r: "round_half_even n s = n div 2 ^ s + 1" and h: "2 ^ s \<le> 2 * (n mod 2 ^ s)"
      by (auto simp: round_half_even_def Let_def)
    have "2 * ((n div 2 ^ s + 1) * 2 ^ s) = 2 * (n div 2 ^ s * 2 ^ s) + 2 ^ s + 2 ^ s"
      by (simp add: algebra_simps)
    also have "\<dots> \<le> 2 * (n div 2 ^ s * 2 ^ s) + 2 * (n mod 2 ^ s) + 2 ^ s"
      using h by simp
    also have "\<dots> = 2 * n + 2 ^ s"
      using n by (metis distrib_left)
    finally show ?thesis by (simp add: r)
  qed
qed

lemma rounded_product_less:
  assumes "k < 2 ^ 53" and "0 < mx"
  shows "rounded_product k mx < 2 ^ 53 * mx"
proof (cases "bit_length (k * mx) \<le> 53")
  case True
  then have "rounded_product k mx = k * mx"
    by (simp add: rounded_product_def round_half_even_def)
  with assms show ?thesis by simp
next
  case False
  define n where "n = k * mx"
  define s where "s = bit_length n - 53"
  have b: "bit_length n = s + 53" and s: "0 < s"
    using False by (simp_all add: s_def n_def)
  have npos: "0 < n"
  proof (rule ccontr)
    assume "\<not> 0 < n"
    then have "bit_length n = 0" by (simp add: bit_length.simps [of 0])
    with False show False by (simp add: n_def)
  qed
  have "bit_length n - 1 = s + 52"
    using b by simp
  with bit_length_bounds [OF npos] have "2 ^ (s + 52) \<le> n"
    by metis
  also have "n < 2 ^ 53 * mx"
    using assms by (simp add: n_def)
  finally have "(2::nat) ^ s * 2 ^ 52 < 2 ^ 53 * mx"
    by (simp add: power_add)
  then have "(2::nat) ^ s < 2 * mx" by simp
  moreover have "2 * n + 2 * mx \<le> 2 * (2 ^ 53 * mx)"
  proof -
    have "k + 1 \<le> 2 ^ 53" using assms(1) by simp
    then have "(k + 1) * mx \<le> 2 ^ 53 * mx" by (rule mult_le_mono1)
    then show ?thesis by (simp add: n_def algebra_simps)
  qed
  moreover have "2 * (round_half_even n s * 2 ^ s) \<le> 2 * n + 2 ^ s"
    by (rule round_half_even_upper)
  ultimately have "2 * (round_half_even n s * 2 ^ s) < 2 * (2 ^ 53 * mx)" by linarith
  then show ?thesis
    by (simp add: rounded_product_def n_def [symmetric] s_def [symmetric])
qed

lemma bit_length_unique:
  assumes "2 ^ b \<le> n" and "n < 2 ^ Suc b"
  shows "bit_length n = Suc b"
proof -
  have pos: "0 < n"
    using assms(1) by (cases "n = 0") simp_all
  from bit_length_bounds [OF pos]
  have lo: "2 ^ (bit_length n - 1) \<le> n" and hi: "n < 2 ^ bit_length n" by simp_all
  have "(2::nat) ^ b < 2 ^ bit_length n"
    using assms(1) hi by (rule le_less_trans)
  then have 1: "b < bit_length n" by simp
  have "(2::nat) ^ (bit_length n - 1) < 2 ^ Suc b"
    using lo assms(2) by (rule le_less_trans)
  then have "bit_length n - 1 < Suc b"
    using power_less_imp_less_exp [of 2 "bit_length n - 1" "Suc b"] by simp
  with 1 show ?thesis by simp
qed

lemma rounded_product_exact: "bit_length (k * mx) \<le> 53 \<Longrightarrow> rounded_product k mx = k * mx"
  by (simp add: rounded_product_def round_half_even_def)

lemma math_floor_random_less: "0 < mx \<Longrightarrow> math_floor_random e mx < mx"
proof -
  assume pos: "0 < mx"
  let ?rp = "rounded_product (unat (significand (math_random e))) mx"
  have "unat (significand (math_random e)) < 2 ^ 53"
    using unsigned_less [of "significand (math_random e)"] by simp
  from rounded_product_less [OF this pos] have "?rp div 2 ^ 53 < mx"
    by (simp add: less_mult_imp_div_less mult.commute)
  moreover have "?rp div 2 ^ (53 + places (math_random e)) \<le> ?rp div 2 ^ 53"
  proof (rule div_le_mono2)
    show "(0::nat) < 2 ^ 53" by simp
    show "(2::nat) ^ 53 \<le> 2 ^ (53 + places (math_random e))"
      by (rule power_increasing) simp_all
  qed
  ultimately show ?thesis
    unfolding math_floor_random_def by simp
qed

lemma math_floor_random_floor:
  "int (math_floor_random e mx) =
     \<lfloor>(of_nat (rounded_product (unat (significand (math_random e))) mx)
         / 2 ^ (53 + places (math_random e)) :: rat)\<rfloor>"
proof -
  let ?rp = "rounded_product (unat (significand (math_random e))) mx"
  let ?d = "53 + places (math_random e)"
  have "\<lfloor>(of_nat ?rp / 2 ^ ?d :: rat)\<rfloor> = \<lfloor>(of_int (int ?rp) :: rat) / of_int (2 ^ ?d)\<rfloor>"
    by simp
  also have "\<dots> = int ?rp div 2 ^ ?d"
    by (rule floor_divide_of_int_eq)
  finally show ?thesis
    by (simp add: math_floor_random_def zdiv_int)
qed

lemma math_floor_random_tie:
  "math_floor_random
     \<lparr>crypto = TimedOut, math_random = \<lparr>significand = 6004799503160661, places = 0\<rparr>\<rparr> 3 = 2"
proof -
  have "bit_length (6004799503160661 * 3) = Suc 53"
    by (rule bit_length_unique) simp_all
  then show ?thesis
    by (simp add: math_floor_random_def rounded_product_def round_half_even_def)
qed

lemma math_floor_random_half:
  "math_floor_random
     \<lparr>crypto = TimedOut, math_random = \<lparr>significand = 4503599627370496, places = 0\<rparr>\<rparr> 10 = 5"
proof -
  have "bit_length (4503599627370496 * 10) = Suc 55"
    by (rule bit_length_unique) simp_all
  then show ?thesis
    by (simp add: math_floor_random_def rounded_product_def round_half_even_def)
qed

lemma math_floor_random_eighth:
  "math_floor_random
     \<lparr>crypto = TimedOut, math_random = \<lparr>significand = 4503599627370496, places = 2\<rparr>\<rparr> 10 = 1"
proof -
  have "bit_length (4503599627370496 * 10) = Suc 55"
    by (rule bit_length_unique) simp_all
  then show ?thesis
    by (simp add: math_floor_random_def rounded_product_def round_half_even_def)
qed

lemma math_floor_random_zero:
  "math_floor_random \<lparr>crypto = c, math_random = \<lparr>significand = 0, places = j\<rparr>\<rparr> m = 0"
  by (simp add: math_floor_random_def rounded_product_def round_half_even_def
      bit_length.simps [of 0])

lemma secureRandom_Some: "0 < mx \<Longrightarrow> \<exists>r. secureRandom e mx = Some r \<and> r < mx"
  by (auto simp: secureRandom_def math_floor_random_less
      split: crypto_result.splits option.splits)

subsection \<open>The shuffle loop permutes, the selection loop draws without replacement\<close>

lemma shuffle_loop_perm:
  "i \<le> length xs - 1 \<Longrightarrow> mset (fst (shuffle_loop env n i xs)) = mset xs"
proof (induction i arbitrary: n xs)
  case 0
  then show ?case by simp
next
  case (Suc i)
  then have len: "Suc i < length xs" by auto
  obtain j where j: "secureRandom (env n) (Suc i + 1) = Some j" "j < Suc i + 1"
    using secureRandom_Some [of "Suc i + 1" "env n"] by auto
  let ?ys = "xs[Suc i := xs ! j, j := xs ! Suc i]"
  have "mset ?ys = mset xs"
    using len j(2) by (simp add: mset_swap)
  moreover have "mset (fst (shuffle_loop env (Suc n) i ?ys)) = mset ?ys"
    using len by (intro Suc.IH) simp
  ultimately show ?case using j(1) by simp
qed

lemma shuffle_loop_small: "length xs \<le> 1 \<Longrightarrow> shuffle_loop env n (length xs - 1) xs = (xs, n)"
  by (cases xs) simp_all

lemma select_loop_inv:
  "distinct (indices @ available) \<Longrightarrow>
   select_loop env n c available indices = (r, n') \<Longrightarrow>
   distinct r \<and> set r \<subseteq> set indices \<union> set available \<and>
   length r = length indices + min c (length available)"
proof (induction c arbitrary: n available indices)
  case 0
  then show ?case by auto
next
  case (Suc c)
  show ?case
  proof (cases "available = []")
    case True
    with Suc.prems show ?thesis by auto
  next
    case False
    then obtain p where p: "secureRandom (env n) (length available) = Some p" "p < length available"
      using secureRandom_Some [of "length available" "env n"] by auto
    let ?av = "take p available @ drop (Suc p) available"
    let ?ind = "indices @ [available ! p]"
    have split: "available = take p available @ available ! p # drop (Suc p) available"
      using p(2) by (simp add: id_take_nth_drop)
    have d: "distinct (?ind @ ?av)"
      using Suc.prems(1) by (subst (asm) split) auto
    have run: "select_loop env (Suc n) c ?av ?ind = (r, n')"
      using Suc.prems(2) False p(1) by simp
    from Suc.IH [OF d run]
    have r: "distinct r" "set r \<subseteq> set ?ind \<union> set ?av"
      "length r = length ?ind + min c (length ?av)" by auto
    have sub: "set ?ind \<union> set ?av \<subseteq> set indices \<union> set available"
      using p(2) by (auto dest: in_set_takeD in_set_dropD)
    have "length ?av = length available - 1" using p(2) by simp
    with r sub False show ?thesis by (cases available) auto
  qed
qed

lemma secureRandom_crypto_env: "secureRandom (crypto_env k) (Suc (Suc m)) = Some 1"
  by (simp add: secureRandom_def crypto_env_def)

lemma secureRandom_crypto_env_1: "secureRandom (crypto_env k) (Suc 0) = Some 0"
  by (simp add: secureRandom_def crypto_env_def)

lemma secureRandom_fallback_env: "secureRandom (fallback_env k) m = Some 0"
  by (simp add: secureRandom_def math_floor_random_zero fallback_env_def)

lemma available_pool_5: "available_pool 5 [1] = [0, 2, 3, 4]"
  by code_simp

lemma available_pool_1: "available_pool 1 [] = [0]"
  by code_simp

subsection \<open>Claims on the random primitives\<close>

text \<open>
  Claim C5. For every \<open>max > 0\<close>, \<open>secureRandom(max)\<close> returns a number (it never throws
  and the result is not \<open>NaN\<close>) that lies in \<open>[0, max)\<close>. When the secure generator
  delivers at least four bytes, the result is the first four bytes read as an unsigned
  little-endian 32-bit integer, modulo \<open>max\<close>. On timeout, on rejection and when the
  delivered buffer is too short to read, the result is \<open>Math.floor(Math.random() * max)\<close>,
  the floor of the product as the double multiplication rounds it, for every double
  in \<open>[0, 1)\<close> that \<open>Math.random()\<close> may return.
\<close>

theorem secureRandom_in_range:
  assumes "0 < mx"
  shows "(\<exists>r. secureRandom e mx = Some r \<and> r < mx) \<and>
    (\<forall>b0 b1 b2 b3 rest. crypto e = Bytes (b0 # b1 # b2 # b3 # rest) \<longrightarrow>
       secureRandom e mx =
         Some ((unat b0 + 2 ^ 8 * unat b1 + 2 ^ 16 * unat b2 + 2 ^ 24 * unat b3) mod mx)) \<and>
    (crypto e = TimedOut \<or> crypto e = Rejected \<or>
       (\<exists>bs. crypto e = Bytes bs \<and> getUint32 bs = None) \<longrightarrow>
       (\<exists>r. secureRandom e mx = Some r \<and>
          int r = \<lfloor>(of_nat (rounded_product (unat (significand (math_random e))) mx)
                     / 2 ^ (53 + places (math_random e)) :: rat)\<rfloor>))"
proof (intro conjI allI impI)
  show "\<exists>r. secureRandom e mx = Some r \<and> r < mx"
    using assms by (rule secureRandom_Some)
next
  fix b0 b1 b2 b3 rest
  assume "crypto e = Bytes (b0 # b1 # b2 # b3 # rest)"
  then show "secureRandom e mx =
         Some ((unat b0 + 2 ^ 8 * unat b1 + 2 ^ 16 * unat b2 + 2 ^ 24 * unat b3) mod mx)"
    using assms by (simp add: secureRandom_def)
next
  assume "crypto e = TimedOut \<or> crypto e = Rejected \<or>
       (\<exists>bs. crypto e = Bytes bs \<and> getUint32 bs = None)"
  then have "secureRandom e mx = Some (math_floor_random e mx)"
    by (auto simp: secureRandom_def)
  then show "\<exists>r. secureRandom e mx = Some r \<and>
          int r = \<lfloor>(of_nat (rounded_product (unat (significand (math_random e))) mx)
                     / 2 ^ (53 + places (math_random e)) :: rat)\<rfloor>"
    by (simp add: math_floor_random_floor)
qed

theorem secureRandom_in_range_witness:
  "(0::nat) < 10 \<and>
   secureRandom \<lparr>crypto = Bytes [1, 2, 3, 4],
                 math_random = \<lparr>significand = 0, places = 0\<rparr>\<rparr> 10 = Some 5 \<and>
   secureRandom \<lparr>crypto = TimedOut,
                 math_random = \<lparr>significand = 2 ^ 52, places = 0\<rparr>\<rparr> 10 = Some 5 \<and>
   secureRandom \<lparr>crypto = TimedOut,
                 math_random = \<lparr>significand = 2 ^ 52, places = 2\<rparr>\<rparr> 10 = Some 1 \<and>
   secureRandom \<lparr>crypto = TimedOut,
                 math_random = \<lparr>significand = 6004799503160661, places = 0\<rparr>\<rparr> 3 = Some 2"
  using secureRandom_in_range [of 10 "\<lparr>crypto = Bytes [1, 2, 3, 4],
                 math_random = \<lparr>significand = 0, places = 0\<rparr>\<rparr>"]
    secureRandom_in_range [of 10 "\<lparr>crypto = TimedOut,
                 math_random = \<lparr>significand = 2 ^ 52, places = 0\<rparr>\<rparr>"]
    secureRandom_in_range [of 10 "\<lparr>crypto = TimedOut,
                 math_random = \<lparr>significand = 2 ^ 52, places = 2\<rparr>\<rparr>"]
    secureRandom_in_range [of 3 "\<lparr>crypto = TimedOut,
                 math_random = \<lparr>significand = 6004799503160661, places = 0\<rparr>\<rparr>"]
  by (simp add: secureRandom_def math_floor_random_tie math_floor_random_half
      math_floor_random_eighth)

text \<open>
  Claim C3. \<open>shuffleArray(S)\<close> returns a new array that is a permutation of \<open>S\<close>: it has
  the same multiset of elements and the same length. No array that existed before the
  call is changed, \<open>S\<close> included. For an empty or single-element \<open>S\<close> the returned
  array has the content of \<open>S\<close>.
\<close>

theorem shuffleArray_permutation:
  assumes "shuffleArray env n h array = (shuffled, h', n')"
  shows "mset (cells h' shuffled) = mset (cells h array) \<and>
    length (cells h' shuffled) = length (cells h array) \<and>
    (\<forall>r. r < fresh h \<longrightarrow> cells h' r = cells h r) \<and>
    (array < fresh h \<longrightarrow> cells h' array = cells h array) \<and>
    (length (cells h array) \<le> 1 \<longrightarrow> cells h' shuffled = cells h array)"
proof -
  obtain ys k where loop: "shuffle_loop env n (length (cells h array) - 1) (cells h array) = (ys, k)"
    by (cases "shuffle_loop env n (length (cells h array) - 1) (cells h array)")
  with assms have res: "shuffled = fresh h" "cells h' = (cells h)(fresh h := ys)"
    by (auto simp: shuffleArray_def)
  have perm: "mset ys = mset (cells h array)"
    using shuffle_loop_perm [of "length (cells h array) - 1" "cells h array" env n] loop by simp
  then have "length ys = length (cells h array)"
    by (rule mset_eq_length)
  moreover have "length (cells h array) \<le> 1 \<longrightarrow> ys = cells h array"
    using shuffle_loop_small [of "cells h array" env n] loop by auto
  ultimately show ?thesis using perm res by simp
qed

theorem shuffleArray_permutation_witness:
  "shuffleArray crypto_env 0 \<lparr>cells = (\<lambda>r. [])(0 := [''Ana'', ''Bea'', ''Cid'']), fresh = 1\<rparr> 0 =
     (1, \<lparr>cells = (\<lambda>r. [])(0 := [''Ana'', ''Bea'', ''Cid''], 1 := [''Ana'', ''Cid'', ''Bea'']),
          fresh = 2\<rparr>, 2)"
  using shuffleArray_permutation [of crypto_env 0
      "\<lparr>cells = (\<lambda>r. [])(0 := [''Ana'', ''Bea'', ''Cid'']), fresh = 1\<rparr>" 0]
  by (simp add: shuffleArray_def secureRandom_crypto_env numeral_2_eq_2)

text \<open>
  Claim C4. \<open>selectUniqueIndices(count, max, exclude)\<close> returns pairwise distinct
  numbers, each below \<open>max\<close> and none in \<open>exclude\<close>. The number of results is \<open>count\<close>
  when the pool \<open>[0, max)\<close> minus \<open>exclude\<close> has at least \<open>count\<close> members, and the size
  of the pool otherwise.
\<close>

theorem selectUniqueIndices_distinct:
  assumes "selectUniqueIndices env n cnt mx exclude = (indices, n')"
  shows "distinct indices \<and>
    (\<forall>i \<in> set indices. i < mx \<and> i \<notin> set exclude) \<and>
    length indices = min cnt (card ({0..<mx} - set exclude))"
proof -
  have d: "distinct ([] @ available_pool mx exclude)"
    by (simp add: available_pool_def)
  have run: "select_loop env n cnt (available_pool mx exclude) [] = (indices, n')"
    using assms by (simp add: selectUniqueIndices_def)
  have pool: "set (available_pool mx exclude) = {0..<mx} - set exclude"
    by (auto simp: available_pool_def)
  have "length (available_pool mx exclude) = card (set (available_pool mx exclude))"
    using distinct_card [of "available_pool mx exclude"] by (simp add: available_pool_def)
  with pool have len: "length (available_pool mx exclude) = card ({0..<mx} - set exclude)"
    by simp
  from select_loop_inv [OF d run] pool len show ?thesis by auto
qed

theorem selectUniqueIndices_distinct_witness:
  "selectUniqueIndices fallback_env 0 2 5 [1] = ([0, 2], 2) \<and>
   selectUniqueIndices fallback_env 0 2 1 [] = ([0], 1)"
  using selectUniqueIndices_distinct [of fallback_env 0 2 5 "[1]"]
    selectUniqueIndices_distinct [of fallback_env 0 2 1 "[]"]
  unfolding selectUniqueIndices_def available_pool_5 available_pool_1
  by (simp add: secureRandom_fallback_env numeral_2_eq_2)

subsection \<open>Saving and loading the configuration\<close>








lemma isValidGameState_fields:
  "isValidGameState data \<Longrightarrow>
     is_object data \<and>
     optional_field data ''players'' (is_array_of is_string) \<and>
     optional_field data ''selectedCategory'' is_string \<and>
     optional_field data ''selectedVariant'' is_string"
  by (cases "get_prop data ''players''")
    (auto simp: isValidGameState_def optional_field_def is_array_of_def
      split: if_splits option.splits json.splits elim: is_string_array.elims)





text \<open>
  Claim C10, as stated, fails: \<open>loadGameState\<close> returns a stored object unchanged once
  \<open>isValidGameState\<close> accepts it, and that check looks at three fields only. A stored
  \<open>selectedVariant\<close> that is no variant id, or a stored \<open>jesterIndex\<close> that is a string,
  comes back as it is.
\<close>

theorem loadGameState_untyped_counterexample:
  "fst (loadGameState Completed Completed
     [STORAGE_KEY \<mapsto>
        Json (JObj [(''selectedVariant'', JStr ''bogus''), (''jesterIndex'', JStr ''x'')])]) =
     JObj [(''selectedVariant'', JStr ''bogus''), (''jesterIndex'', JStr ''x'')] \<and>
   \<not> conforms_Partial_GameState
     (JObj [(''selectedVariant'', JStr ''bogus''), (''jesterIndex'', JStr ''x'')]) \<and>
   \<not> optional_field (JObj [(''selectedVariant'', JStr ''bogus''), (''jesterIndex'', JStr ''x'')])
     ''selectedVariant''
     (is_one_of (map variant_id [classic, double_impostor, accomplices, jester, chaos])) \<and>
   \<not> optional_field (JObj [(''selectedVariant'', JStr ''bogus''), (''jesterIndex'', JStr ''x'')])
     ''jesterIndex'' is_number"
  by (simp add: loadGameState_def isValidGameState_def conforms_Partial_GameState_def
      optional_field_def is_one_of_def is_number_def)


text \<open>
  Claim C10, amended. \<open>loadGameState\<close> returns either the empty object or the stored
  value unchanged. In what it returns, \<open>players\<close> is an array of strings if present, and
  \<open>selectedCategory\<close> and \<open>selectedVariant\<close> are strings if present; no other field is
  checked, and \<open>selectedVariant\<close> is not compared with the variant ids. When the read
  delivers a text that does not parse or a value of invalid shape, the result is the
  empty object and the store is asked to remove the entry (the entry is gone when that
  call completes). When the read delivers nothing, the result is the empty object and
  the store is left as it is.
\<close>

theorem loadGameState_validated:
  assumes "loadGameState io_get io_remove store = (result, store')"
  shows "(is_object result \<and>
          optional_field result ''players'' (is_array_of is_string) \<and>
          optional_field result ''selectedCategory'' is_string \<and>
          optional_field result ''selectedVariant'' is_string) \<and>
         (case safeStorageGet io_get store STORAGE_KEY of
            None \<Rightarrow> result = JObj [] \<and> store' = store
          | Some Garbage \<Rightarrow>
              result = JObj [] \<and> store' = snd (safeStorageRemove io_remove store STORAGE_KEY)
          | Some (Json parsed) \<Rightarrow>
              (if isValidGameState parsed then result = parsed \<and> store' = store
               else result = JObj [] \<and>
                    store' = snd (safeStorageRemove io_remove store STORAGE_KEY)))"
proof -
  have shape: "case safeStorageGet io_get store STORAGE_KEY of
            None \<Rightarrow> result = JObj [] \<and> store' = store
          | Some Garbage \<Rightarrow>
              result = JObj [] \<and> store' = snd (safeStorageRemove io_remove store STORAGE_KEY)
          | Some (Json parsed) \<Rightarrow>
              (if isValidGameState parsed then result = parsed \<and> store' = store
               else result = JObj [] \<and>
                    store' = snd (safeStorageRemove io_remove store STORAGE_KEY))"
    using assms
    by (auto simp: loadGameState_def Let_def split: option.splits blob.splits if_splits)
  have empty: "isValidGameState (JObj [])"
    by (simp add: isValidGameState_def)
  have "isValidGameState result"
    using shape empty by (auto split: option.splits blob.splits if_splits)
  with shape isValidGameState_fields [of result] show ?thesis by blast
qed

theorem loadGameState_validated_witness:
  "loadGameState Completed Completed [STORAGE_KEY \<mapsto> Json (JObj [(''players'', JStr ''Ana'')])] =
     (JObj [], Map.empty) \<and>
   loadGameState Completed Completed [STORAGE_KEY \<mapsto> Garbage] = (JObj [], Map.empty) \<and>
   loadGameState Completed Completed [STORAGE_KEY \<mapsto> Json (JObj [(''players'', JArr [JStr ''Ana''])])] =
     (JObj [(''players'', JArr [JStr ''Ana''])],
      [STORAGE_KEY \<mapsto> Json (JObj [(''players'', JArr [JStr ''Ana''])])])"
  using loadGameState_validated [of Completed Completed
      "[STORAGE_KEY \<mapsto> Json (JObj [(''players'', JStr ''Ana'')])]" "JObj []" Map.empty]
    loadGameState_validated [of Completed Completed "[STORAGE_KEY \<mapsto> Garbage]" "JObj []" Map.empty]
  by (simp add: loadGameState_def isValidGameState_def)


subsection \<open>Records of categories\<close>

lemma array_index_mixta: "array_index ''mixta'' = None"
  by (simp add: array_index_def)

lemma map_of_insert_index:
  "map_of obj key = None \<Longrightarrow>
   map_of (insert_index i key v obj) k = (if k = key then Some v else map_of obj k)"
  by (induction i key v obj rule: insert_index.induct) (auto split: option.splits if_splits)

lemma map_of_replace:
  "map_of (replace_value key v obj) k =
     (if k = key \<and> map_of obj key \<noteq> None then Some v else map_of obj k)"
  by (induction key v obj rule: replace_value.induct) auto

lemma set_replace_value: "snd ` set (replace_value key v obj) \<subseteq> insert v (snd ` set obj)"
  by (induction key v obj rule: replace_value.induct) auto

lemma map_of_obj_set: "map_of (obj_set key v obj) k = (if k = key then Some v else map_of obj k)"
  by (auto simp: obj_set_def map_of_insert_index map_of_replace map_add_def
      split: option.splits)

lemma set_insert_index: "set (insert_index i key v obj) = insert (key, v) (set obj)"
  by (induction i key v obj rule: insert_index.induct) (auto split: option.splits)

lemma snd_set_obj_set: "snd ` set (obj_set key v obj) \<subseteq> insert v (snd ` set obj)"
  using set_replace_value [of key v obj]
  by (auto simp: obj_set_def set_insert_index split: option.splits if_splits)

lemma snd_set_obj_delete: "snd ` set (obj_delete key obj) \<subseteq> snd ` set obj"
  by (auto simp: obj_delete_def)

lemma map_of_obj_delete:
  "map_of (obj_delete key obj) k = (if k = key then None else map_of obj k)"
  by (induction obj) (auto simp: obj_delete_def)


lemma filter_replace_mixta:
  "filter (\<lambda>(k, w). k \<noteq> ''mixta'') (replace_value ''mixta'' v obj) =
   filter (\<lambda>(k, w). k \<noteq> ''mixta'') obj"
  by (induction obj) auto

lemma filter_obj_set_mixta:
  "filter (\<lambda>(k, w). k \<noteq> ''mixta'') (obj_set ''mixta'' v obj) = filter (\<lambda>(k, w). k \<noteq> ''mixta'') obj"
  by (simp add: obj_set_def array_index_mixta filter_replace_mixta)


lemma map_of_ref: "map_of cats key = Some r \<Longrightarrow> r \<in> snd ` set cats"
  by (force dest: map_of_SomeD)

lemma replace_value_map:
  assumes "map_of obj key = Some r"
    and "f v = f r"
  shows "map (\<lambda>e. f (snd e)) (replace_value key v obj) = map (\<lambda>e. f (snd e)) obj"
  using assms by (induction key v obj rule: replace_value.induct) (auto split: if_splits)

lemma getAllWords_cong:
  assumes "map fst cats' = map fst cats"
    and "map (\<lambda>e. word_list st' (objs st' (snd e))) cats' =
         map (\<lambda>e. word_list st (objs st (snd e))) cats"
  shows "getAllWords st' cats' = getAllWords st cats"
proof -
  have "length cats' = length cats"
    using assms(1) by (rule map_eq_imp_length_eq)
  then show ?thesis
    using assms
    by (induction cats' cats rule: list_induct2) (auto simp: getAllWords_def)
qed

lemma concatenation_of_cong:
  assumes "map fst cats' = map fst cats"
    and "map (\<lambda>e. word_list st' (objs st' (snd e))) cats' =
         map (\<lambda>e. word_list st (objs st (snd e))) cats"
  shows "concatenation_of st' cats' = concatenation_of st cats"
proof -
  have "length cats' = length cats"
    using assms(1) by (rule map_eq_imp_length_eq)
  then show ?thesis
    using assms
    by (induction cats' cats rule: list_induct2) (auto simp: concatenation_of_def)
qed

lemma getAllWords_frame:
  assumes "\<forall>r \<in> snd ` set cats. word_list st' (objs st' r) = word_list st (objs st r)"
  shows "getAllWords st' cats = getAllWords st cats"
  using assms by (intro getAllWords_cong) auto

lemma concatenation_of_frame:
  assumes "\<forall>r \<in> snd ` set cats. word_list st' (objs st' r) = word_list st (objs st r)"
  shows "concatenation_of st' cats = concatenation_of st cats"
  using assms by (intro concatenation_of_cong) auto

lemma getAllWords_obj_set_mixta: "getAllWords st (obj_set ''mixta'' m cats) = getAllWords st cats"
  by (simp add: getAllWords_def filter_obj_set_mixta)

lemma concatenation_of_obj_set_mixta:
  "concatenation_of st (obj_set ''mixta'' m cats) = concatenation_of st cats"
  by (simp add: concatenation_of_def filter_obj_set_mixta)

lemma getAllWords_concatenation:
  assumes "\<forall>r \<in> snd ` set cats. words (objs st r) \<noteq> None"
  shows "getAllWords st cats = concatenation_of st cats"
  using assms
  by (induction cats) (auto simp: getAllWords_def concatenation_of_def word_list_def)


subsection \<open>Looking keys up\<close>

lemma lookup_own: "map_of cats key = Some r \<Longrightarrow> lookup prototype cats key = Own r"
  by (simp add: lookup_def)


lemma lookup_mixta:
  "lookup prototype cats ''mixta'' =
     (case map_of cats ''mixta'' of Some r \<Rightarrow> Own r | None \<Rightarrow> Missing)"
  by (simp add: lookup_def in_Object_prototype_def OBJECT_METHODS_def split: option.splits)

lemma ordinary_mixta: "ordinary_key ''mixta''"
  by (simp add: ordinary_key_def OBJECT_METHODS_def)

subsection \<open>Allocation\<close>

lemma allocatedI:
  assumes "\<forall>x \<in> snd ` set (CATEGORIES st). x < next_obj st"
    and "\<forall>x \<in> snd ` set (DEFAULT_CATEGORIES st). x < next_obj st"
    and "\<forall>r a. r < next_obj st \<and> words (objs st r) = Some a \<longrightarrow> a < next_arr st"
  shows "allocated st"
  unfolding allocated_def using assms by blast

lemma allocated_CATEGORIES: "allocated st \<Longrightarrow> \<forall>x \<in> snd ` set (CATEGORIES st). x < next_obj st"
  unfolding allocated_def by blast

lemma allocated_DEFAULT:
  "allocated st \<Longrightarrow> \<forall>x \<in> snd ` set (DEFAULT_CATEGORIES st). x < next_obj st"
  unfolding allocated_def by blast

lemma allocated_objs:
  "allocated st \<Longrightarrow> \<forall>r a. r < next_obj st \<and> words (objs st r) = Some a \<longrightarrow> a < next_arr st"
  unfolding allocated_def by blast

lemma refs_less_Suc: "\<forall>x \<in> snd ` set cats. x < n \<Longrightarrow> \<forall>x \<in> snd ` set cats. x < Suc n"
  by (simp add: less_SucI)

lemma refs_obj_set:
  assumes "\<forall>x \<in> snd ` set cats. x < n" and "r < n"
  shows "\<forall>x \<in> snd ` set (obj_set key r cats). x < n"
proof
  fix x assume "x \<in> snd ` set (obj_set key r cats)"
  then have "x = r \<or> x \<in> snd ` set cats"
    using snd_set_obj_set [of key r cats] by blast
  then show "x < n"
    using assms by auto
qed

lemma refs_obj_delete:
  assumes "\<forall>x \<in> snd ` set cats. x < n"
  shows "\<forall>x \<in> snd ` set (obj_delete key cats). x < n"
  using assms snd_set_obj_delete [of key cats] by blast

lemma heap_new_object:
  assumes "\<forall>r a. r < no \<and> words (ob r) = Some a \<longrightarrow> a < na"
    and "\<forall>a. words c = Some a \<longrightarrow> a < na'" and "na \<le> na'"
  shows "\<forall>r a. r < Suc no \<and> words ((ob(no := c)) r) = Some a \<longrightarrow> a < na'"
proof (intro allI impI)
  fix r a assume h: "r < Suc no \<and> words ((ob(no := c)) r) = Some a"
  show "a < na'"
  proof (cases "r = no")
    case True
    with h assms(2) show ?thesis by simp
  next
    case False
    with h have "r < no" "words (ob r) = Some a" by simp_all
    with assms(1) have "a < na" by blast
    with assms(3) show ?thesis by simp
  qed
qed

lemma heap_update_object:
  assumes "\<forall>r a. r < no \<and> words (ob r) = Some a \<longrightarrow> a < na"
    and "\<forall>a. words c = Some a \<longrightarrow> a < na'" and "na \<le> na'"
  shows "\<forall>r a. r < no \<and> words ((ob(q := c)) r) = Some a \<longrightarrow> a < na'"
proof (intro allI impI)
  fix r a assume h: "r < no \<and> words ((ob(q := c)) r) = Some a"
  show "a < na'"
  proof (cases "r = q")
    case True
    with h assms(2) show ?thesis by simp
  next
    case False
    with h have "r < no" "words (ob r) = Some a" by simp_all
    with assms(1) have "a < na" by blast
    with assms(3) show ?thesis by simp
  qed
qed

lemma heap_less_Suc:
  assumes "\<forall>r a. r < no \<and> words (ob r) = Some a \<longrightarrow> a < na"
  shows "\<forall>r a. r < no \<and> words (ob r) = Some a \<longrightarrow> a < Suc na"
  using assms less_SucI by blast

lemma new_array_allocated:
  assumes "allocated st"
  shows "allocated (snd (new_array ws st))"
  using allocated_CATEGORIES [OF assms] allocated_DEFAULT [OF assms]
    heap_less_Suc [OF allocated_objs [OF assms]]
  by (intro allocatedI) (simp_all add: new_array_def)

lemma new_array_fields:
  "fst (new_array ws st) = next_arr st"
  "next_arr (snd (new_array ws st)) = Suc (next_arr st)"
  "next_obj (snd (new_array ws st)) = next_obj st"
  "objs (snd (new_array ws st)) = objs st"
  "arrs (snd (new_array ws st)) = (arrs st)(next_arr st := ws)"
  "CATEGORIES (snd (new_array ws st)) = CATEGORIES st"
  "DEFAULT_CATEGORIES (snd (new_array ws st)) = DEFAULT_CATEGORIES st"
  "proto (snd (new_array ws st)) = proto st"
  "persisted (snd (new_array ws st)) = persisted st"
  by (simp_all add: new_array_def)

lemma new_object_allocated:
  assumes "allocated st" and "\<forall>a. words c = Some a \<longrightarrow> a < next_arr st"
  shows "allocated (snd (new_object c st))"
  using refs_less_Suc [OF allocated_CATEGORIES [OF assms(1)]]
    refs_less_Suc [OF allocated_DEFAULT [OF assms(1)]]
    heap_new_object [OF allocated_objs [OF assms(1)] assms(2)]
  by (intro allocatedI) (simp_all add: new_object_def)

lemma new_object_fields:
  "fst (new_object c st) = next_obj st"
  "next_obj (snd (new_object c st)) = Suc (next_obj st)"
  "next_arr (snd (new_object c st)) = next_arr st"
  "objs (snd (new_object c st)) = (objs st)(next_obj st := c)"
  "arrs (snd (new_object c st)) = arrs st"
  "CATEGORIES (snd (new_object c st)) = CATEGORIES st"
  "DEFAULT_CATEGORIES (snd (new_object c st)) = DEFAULT_CATEGORIES st"
  "proto (snd (new_object c st)) = proto st"
  "persisted (snd (new_object c st)) = persisted st"
  by (simp_all add: new_object_def)

lemma assign_category_allocated:
  assumes "allocated st" and "r < next_obj st"
  shows "allocated (assign_category key r st)"
  using refs_obj_set [OF allocated_CATEGORIES [OF assms(1)] assms(2), of key]
    allocated_CATEGORIES [OF assms(1)] allocated_DEFAULT [OF assms(1)]
    allocated_objs [OF assms(1)]
  by (intro allocatedI) (simp_all add: assign_category_def)

lemma assign_category_fields:
  "next_obj (assign_category key r st) = next_obj st"
  "next_arr (assign_category key r st) = next_arr st"
  "objs (assign_category key r st) = objs st"
  "arrs (assign_category key r st) = arrs st"
  "DEFAULT_CATEGORIES (assign_category key r st) = DEFAULT_CATEGORIES st"
  "persisted (assign_category key r st) = persisted st"
  by (simp_all add: assign_category_def)

lemma assign_category_ordinary:
  "ordinary_key key \<Longrightarrow>
   assign_category key r st = st\<lparr>CATEGORIES := obj_set key r (CATEGORIES st)\<rparr>"
  by (simp add: assign_category_def ordinary_key_def)

lemma allocated_persisted: "allocated (st\<lparr>persisted := d\<rparr>) = allocated st"
  by (simp add: allocated_def)

lemma saveCustomCategories_eq:
  "snd (saveCustomCategories io_set st) =
     st\<lparr>persisted := snd (safeStorageSet io_set (persisted st) CUSTOM_CATEGORIES_KEY
        (Json (JObj (concat (map (custom_entry st) (CATEGORIES st))))))\<rparr>"
  by (simp add: saveCustomCategories_def Let_def split_def)

lemma settled_persisted: "settled (st\<lparr>persisted := d\<rparr>) = settled st"
  by (simp add: settled_def allocated_def)




subsection \<open>Recomputing mixta\<close>

lemma set_CATEGORIES_mixed_eq:
  "set_CATEGORIES_mixed st prototype cats =
     st\<lparr>arrs := (arrs st)(next_arr st := getAllWords st cats),
        next_arr := Suc (next_arr st),
        objs := (objs st)(next_obj st :=
          (spread_of st prototype (lookup prototype cats ''mixta''))\<lparr>words := Some (next_arr st)\<rparr>),
        next_obj := Suc (next_obj st),
        CATEGORIES := obj_set ''mixta'' (next_obj st) cats,
        proto := None\<rparr>"
  by (simp add: set_CATEGORIES_mixed_def updateMixedCategory_def new_array_def new_object_def
      Let_def)

lemma mixed_allocated:
  assumes "\<forall>r \<in> snd ` set cats. r < next_obj st"
    and "\<forall>r \<in> snd ` set (DEFAULT_CATEGORIES st). r < next_obj st"
    and "\<forall>r a. r < next_obj st \<and> words (objs st r) = Some a \<longrightarrow> a < next_arr st"
  shows "allocated (set_CATEGORIES_mixed st prototype cats)"
  unfolding set_CATEGORIES_mixed_eq
  using refs_obj_set [OF refs_less_Suc [OF assms(1)], of "next_obj st" "''mixta''"]
    refs_less_Suc [OF assms(2)]
    heap_new_object [OF assms(3), of
      "(spread_of st prototype (lookup prototype cats ''mixta''))\<lparr>words := Some (next_arr st)\<rparr>"
      "Suc (next_arr st)"]
  by (intro allocatedI) simp_all

lemma mixed_word_list:
  assumes "r < next_obj st"
    and "\<forall>r a. r < next_obj st \<and> words (objs st r) = Some a \<longrightarrow> a < next_arr st"
  shows "word_list (set_CATEGORIES_mixed st prototype cats)
           (objs (set_CATEGORIES_mixed st prototype cats) r) = word_list st (objs st r)"
proof (cases "words (objs st r)")
  case None
  with assms(1) show ?thesis
    by (simp add: set_CATEGORIES_mixed_eq word_list_def)
next
  case (Some a)
  with assms have "a < next_arr st" by blast
  with Some assms(1) show ?thesis
    by (simp add: set_CATEGORIES_mixed_eq word_list_def)
qed

lemma mixed_mixta_words:
  "mixta_words (set_CATEGORIES_mixed st prototype cats) = Some (getAllWords st cats)"
  by (simp add: set_CATEGORIES_mixed_eq mixta_words_def map_of_obj_set word_list_def)

lemma mixed_settled:
  assumes "\<forall>r \<in> snd ` set cats. r < next_obj st"
    and "\<forall>r \<in> snd ` set (DEFAULT_CATEGORIES st). r < next_obj st"
    and "\<forall>r a. r < next_obj st \<and> words (objs st r) = Some a \<longrightarrow> a < next_arr st"
  shows "settled (set_CATEGORIES_mixed st prototype cats)"
proof -
  have "map_of (CATEGORIES (set_CATEGORIES_mixed st prototype cats)) ''mixta'' = Some (next_obj st)"
    "words (objs (set_CATEGORIES_mixed st prototype cats) (next_obj st)) = Some (next_arr st)"
    "proto (set_CATEGORIES_mixed st prototype cats) = None"
    by (simp_all add: set_CATEGORIES_mixed_eq map_of_obj_set)
  with mixed_allocated [OF assms] show ?thesis
    unfolding settled_def by simp
qed

lemma mixed_tidy:
  assumes refs: "\<forall>r \<in> snd ` set cats. r < next_obj st"
    and drefs: "\<forall>r \<in> snd ` set (DEFAULT_CATEGORIES st). r < next_obj st"
    and heap: "\<forall>r a. r < next_obj st \<and> words (objs st r) = Some a \<longrightarrow> a < next_arr st"
    and have_words: "\<forall>r \<in> snd ` set cats \<union> snd ` set (DEFAULT_CATEGORIES st).
                       words (objs st r) \<noteq> None"
  shows "tidy (set_CATEGORIES_mixed st prototype cats)"
proof -
  let ?st' = "set_CATEGORIES_mixed st prototype cats"
  have cats': "CATEGORIES ?st' = obj_set ''mixta'' (next_obj st) cats"
    and defaults': "DEFAULT_CATEGORIES ?st' = DEFAULT_CATEGORIES st"
    and no_proto: "proto ?st' = None"
    by (simp_all add: set_CATEGORIES_mixed_eq)
  have same: "\<forall>r \<in> snd ` set cats. word_list ?st' (objs ?st' r) = word_list st (objs st r)"
    using refs mixed_word_list [OF _ heap] by blast
  have "concatenated_words ?st' = concatenation_of ?st' cats"
    by (simp add: concatenated_words_def cats' concatenation_of_obj_set_mixta)
  also have "\<dots> = concatenation_of st cats"
    using same by (rule concatenation_of_frame)
  also have "\<dots> = getAllWords st cats"
    using have_words by (intro getAllWords_concatenation [symmetric]) blast
  finally have inv: "mixta_invariant ?st'"
    by (simp add: mixta_invariant_def mixed_mixta_words)
  have "words (objs ?st' r) \<noteq> None"
    if "r \<in> snd ` set (CATEGORIES ?st') \<union> snd ` set (DEFAULT_CATEGORIES ?st')" for r
  proof (cases "r = next_obj st")
    case True
    then show ?thesis by (simp add: set_CATEGORIES_mixed_eq)
  next
    case False
    with that have "r \<in> snd ` set cats \<union> snd ` set (DEFAULT_CATEGORIES st)"
      using snd_set_obj_set [of "''mixta''" "next_obj st" cats] cats' defaults' by auto
    with have_words False show ?thesis
      by (simp add: set_CATEGORIES_mixed_eq)
  qed
  then have "every_category_has_words ?st'"
    unfolding every_category_has_words_def by blast
  with mixed_allocated [OF refs drefs heap] no_proto inv show ?thesis
    unfolding tidy_def by simp
qed

lemma then_save_eq:
  "then_save io_set st =
     (set_CATEGORIES_mixed st (proto_object st) (CATEGORIES st))\<lparr>persisted :=
        snd (safeStorageSet io_set
          (persisted (set_CATEGORIES_mixed st (proto_object st) (CATEGORIES st)))
          CUSTOM_CATEGORIES_KEY
          (Json (JObj (concat (map
            (custom_entry (set_CATEGORIES_mixed st (proto_object st) (CATEGORIES st)))
            (CATEGORIES (set_CATEGORIES_mixed st (proto_object st) (CATEGORIES st))))))))\<rparr>"
  unfolding then_save_def saveCustomCategories_eq ..

lemma then_save_settled:
  assumes "allocated st"
  shows "settled (then_save io_set st)"
  unfolding then_save_eq settled_persisted
  by (rule mixed_settled [OF allocated_CATEGORIES [OF assms] allocated_DEFAULT [OF assms]
      allocated_objs [OF assms]])


subsection \<open>Loading the module and loading from storage\<close>

lemma has_words_new:
  assumes "\<forall>x \<in> R. x < no" and "\<forall>x \<in> R. words (ob x) \<noteq> None" and "words c \<noteq> None"
  shows "\<forall>x \<in> insert no R. words ((ob(no := c)) x) \<noteq> None"
  using assms by auto

lemma has_words_obj_set:
  assumes "\<forall>x \<in> snd ` set cats. x < no" and "\<forall>x \<in> snd ` set cats. words (ob x) \<noteq> None"
    and "words c \<noteq> None"
  shows "\<forall>x \<in> snd ` set (obj_set key no cats). words ((ob(no := c)) x) \<noteq> None"
  using has_words_new [OF assms] snd_set_obj_set [of key no cats] by blast


lemma build_literal_step:
  "build_literal ((key, e, n, ws) # rest) acc st =
     build_literal rest (obj_set key (next_obj st) acc)
       (st\<lparr>arrs := (arrs st)(next_arr st := map Some ws), next_arr := Suc (next_arr st),
           objs := (objs st)(next_obj st :=
             \<lparr>emoji = Some e, name = Some n, words = Some (next_arr st), isCustom = None\<rparr>),
           next_obj := Suc (next_obj st)\<rparr>)"
  by (simp add: new_array_def new_object_def)

lemma build_literal_allocated:
  assumes "\<forall>r \<in> snd ` set acc. r < next_obj st"
    and "\<forall>r a. r < next_obj st \<and> words (objs st r) = Some a \<longrightarrow> a < next_arr st"
    and "\<forall>r \<in> snd ` set acc. words (objs st r) \<noteq> None"
    and "build_literal table acc st = (cats, st')"
  shows "(\<forall>r \<in> snd ` set cats. r < next_obj st') \<and>
         (\<forall>r a. r < next_obj st' \<and> words (objs st' r) = Some a \<longrightarrow> a < next_arr st') \<and>
         (\<forall>r \<in> snd ` set cats. words (objs st' r) \<noteq> None)"
  using assms
proof (induction table arbitrary: acc st)
  case Nil
  then show ?case by simp
next
  case (Cons entry rest)
  obtain key e n ws where entry: "entry = (key, e, n, ws)"
    by (cases entry) auto
  let ?c = "\<lparr>emoji = Some e, name = Some n, words = Some (next_arr st), isCustom = None\<rparr>"
  let ?st2 = "st\<lparr>arrs := (arrs st)(next_arr st := map Some ws), next_arr := Suc (next_arr st),
                  objs := (objs st)(next_obj st := ?c),
                  next_obj := Suc (next_obj st)\<rparr>"
  have run: "build_literal rest (obj_set key (next_obj st) acc) ?st2 = (cats, st')"
    using Cons.prems(4) unfolding entry build_literal_step .
  have a: "\<forall>r \<in> snd ` set (obj_set key (next_obj st) acc). r < next_obj ?st2"
    using refs_obj_set [OF refs_less_Suc [OF Cons.prems(1)], of "next_obj st" key] by simp
  have b: "\<forall>r a. r < next_obj ?st2 \<and> words (objs ?st2 r) = Some a \<longrightarrow> a < next_arr ?st2"
    using heap_new_object [OF Cons.prems(2), of ?c "Suc (next_arr st)"] by simp
  have c: "\<forall>r \<in> snd ` set (obj_set key (next_obj st) acc). words (objs ?st2 r) \<noteq> None"
    using has_words_obj_set [OF Cons.prems(1) Cons.prems(3), of ?c key] by simp
  from Cons.IH [OF a b c run] show ?case .
qed

lemma build_literal_frame:
  assumes "build_literal table acc st = (cats, st')"
  shows "DEFAULT_CATEGORIES st' = DEFAULT_CATEGORIES st \<and> CATEGORIES st' = CATEGORIES st \<and>
         proto st' = proto st \<and> persisted st' = persisted st"
  using assms
proof (induction table arbitrary: acc st)
  case Nil
  then show ?case by simp
next
  case (Cons entry rest)
  obtain key e n ws where entry: "entry = (key, e, n, ws)"
    by (cases entry) auto
  from Cons.IH [OF Cons.prems [unfolded entry build_literal_step]] show ?case
    by simp
qed

lemma module_init_eq:
  assumes "build_literal table [] (empty_store disk) = (defaults, st1)"
  shows "module_init table disk =
           set_CATEGORIES_mixed (st1\<lparr>DEFAULT_CATEGORIES := defaults, CATEGORIES := defaults\<rparr>)
             None defaults"
proof -
  have "proto st1 = None"
    using build_literal_frame [OF assms] by (simp add: empty_store_def)
  then show ?thesis
    using assms by (simp add: module_init_def proto_object_def)
qed

lemma module_init_tidy: "tidy (module_init table disk)"
proof -
  obtain defaults st1 where b: "build_literal table [] (empty_store disk) = (defaults, st1)"
    by (cases "build_literal table [] (empty_store disk)")
  let ?st2 = "st1\<lparr>DEFAULT_CATEGORIES := defaults, CATEGORIES := defaults\<rparr>"
  have refs: "(\<forall>r \<in> snd ` set defaults. r < next_obj st1) \<and>
        (\<forall>r a. r < next_obj st1 \<and> words (objs st1 r) = Some a \<longrightarrow> a < next_arr st1) \<and>
        (\<forall>r \<in> snd ` set defaults. words (objs st1 r) \<noteq> None)"
    using build_literal_allocated [OF _ _ _ b] by (simp add: empty_store_def)
  have "tidy (set_CATEGORIES_mixed ?st2 None defaults)"
    using refs by (intro mixed_tidy) simp_all
  then show ?thesis
    unfolding module_init_eq [OF b] .
qed

lemma tidy_settled:
  assumes "tidy st"
  shows "settled st"
proof -
  from assms have a: "allocated st" and p: "proto st = None"
    and w: "every_category_has_words st" and i: "mixta_invariant st"
    unfolding tidy_def by simp_all
  from i obtain m where m: "map_of (CATEGORIES st) ''mixta'' = Some m"
    unfolding mixta_invariant_def mixta_words_def by (cases "map_of (CATEGORIES st) ''mixta''") auto
  from map_of_ref [OF m] w have "words (objs st m) \<noteq> None"
    unfolding every_category_has_words_def by blast
  with m a p show ?thesis
    unfolding settled_def by auto
qed

lemma spread_parsed_step:
  "spread_parsed ((key, cat) # rest) acc st =
     spread_parsed rest (obj_set key (next_obj st) acc)
       (st\<lparr>arrs := (arrs st)(next_arr st := string_values (the (get_prop cat ''words''))),
           next_arr := Suc (next_arr st),
           objs := (objs st)(next_obj st :=
             \<lparr>emoji = string_value (the (get_prop cat ''emoji'')),
              name = string_value (the (get_prop cat ''name'')),
              words = Some (next_arr st), isCustom = get_prop cat ''isCustom''\<rparr>),
           next_obj := Suc (next_obj st)\<rparr>)"
  by (simp add: new_array_def new_object_def)


lemma spread_parsed_allocated_only:
  assumes "\<forall>r \<in> snd ` set acc. r < next_obj st"
    and "allocated st"
    and "spread_parsed entries acc st = (cats, st')"
  shows "(\<forall>r \<in> snd ` set cats. r < next_obj st') \<and> allocated st'"
  using assms
proof (induction entries arbitrary: acc st)
  case Nil
  then show ?case by simp
next
  case (Cons entry rest)
  obtain key cat where entry: "entry = (key, cat)"
    by (cases entry) auto
  let ?c = "\<lparr>emoji = string_value (the (get_prop cat ''emoji'')),
              name = string_value (the (get_prop cat ''name'')),
              words = Some (next_arr st), isCustom = get_prop cat ''isCustom''\<rparr>"
  let ?st2 = "st\<lparr>arrs := (arrs st)(next_arr st := string_values (the (get_prop cat ''words''))),
           next_arr := Suc (next_arr st),
           objs := (objs st)(next_obj st := ?c),
           next_obj := Suc (next_obj st)\<rparr>"
  have run: "spread_parsed rest (obj_set key (next_obj st) acc) ?st2 = (cats, st')"
    using Cons.prems(3) unfolding entry spread_parsed_step .
  have a: "\<forall>r \<in> snd ` set (obj_set key (next_obj st) acc). r < next_obj ?st2"
    using refs_obj_set [OF refs_less_Suc [OF Cons.prems(1)], of "next_obj st" key] by simp
  have b: "allocated ?st2"
    using refs_less_Suc [OF allocated_CATEGORIES [OF Cons.prems(2)]]
      refs_less_Suc [OF allocated_DEFAULT [OF Cons.prems(2)]]
      heap_new_object [OF allocated_objs [OF Cons.prems(2)], of ?c "Suc (next_arr st)"]
    by (intro allocatedI) simp_all
  from Cons.IH [OF a b run] show ?case .
qed

lemma loadCustomCategories_cases:
  obtains st1 where "allocated st \<longrightarrow> allocated st1"
      and "every_category_has_words st \<longrightarrow> every_category_has_words st1"
      and "loadCustomCategories io_get io_remove st =
             set_CATEGORIES_mixed st1 None (DEFAULT_CATEGORIES st1)"
      and "CATEGORIES st1 = CATEGORIES st" and "DEFAULT_CATEGORIES st1 = DEFAULT_CATEGORIES st"
      and "objs st1 = objs st" and "next_obj st1 = next_obj st"
  | customCategories cats st1 where
      "spread_parsed (json_entries customCategories) (DEFAULT_CATEGORIES st) st = (cats, st1)"
      and "loadCustomCategories io_get io_remove st = set_CATEGORIES_mixed st1 None cats"
proof (cases "safeJsonParse (safeStorageGet io_get (persisted st) CUSTOM_CATEGORIES_KEY)
                isValidCategories")
  case None
  let ?st1 = "if safeStorageGet io_get (persisted st) CUSTOM_CATEGORIES_KEY \<noteq> None
              then st\<lparr>persisted :=
                     snd (safeStorageRemove io_remove (persisted st) CUSTOM_CATEGORIES_KEY)\<rparr>
              else st"
  have "allocated st \<longrightarrow> allocated ?st1"
    by (simp add: allocated_persisted)
  moreover have "every_category_has_words st \<longrightarrow> every_category_has_words ?st1"
    by (simp add: every_category_has_words_def)
  moreover have "loadCustomCategories io_get io_remove st =
             set_CATEGORIES_mixed ?st1 None (DEFAULT_CATEGORIES ?st1)"
    using None by (simp add: loadCustomCategories_def Let_def)
  moreover have "CATEGORIES ?st1 = CATEGORIES st" "DEFAULT_CATEGORIES ?st1 = DEFAULT_CATEGORIES st"
    "objs ?st1 = objs st" "next_obj ?st1 = next_obj st"
    by simp_all
  ultimately show ?thesis
    by (rule that(1))
next
  case (Some customCategories)
  obtain cats st1 where s: "spread_parsed (json_entries customCategories)
                               (DEFAULT_CATEGORIES st) st = (cats, st1)"
    by (cases "spread_parsed (json_entries customCategories) (DEFAULT_CATEGORIES st) st")
  have "loadCustomCategories io_get io_remove st = set_CATEGORIES_mixed st1 None cats"
    using Some s by (simp add: loadCustomCategories_def Let_def)
  with s show ?thesis
    by (rule that(2))
qed

lemma loadCustomCategories_settled:
  assumes "allocated st"
  shows "settled (loadCustomCategories io_get io_remove st)"
proof (cases rule: loadCustomCategories_cases [of st io_get io_remove])
  case (1 st1)
  with assms have a: "allocated st1" by simp
  show ?thesis
    unfolding 1(3)
    by (rule mixed_settled [OF allocated_DEFAULT [OF a] allocated_DEFAULT [OF a]
          allocated_objs [OF a]])
next
  case (2 customCategories cats st1)
  from spread_parsed_allocated_only [OF allocated_DEFAULT [OF assms] assms 2(1)]
  have r: "\<forall>r \<in> snd ` set cats. r < next_obj st1" and a: "allocated st1" by simp_all
  show ?thesis
    unfolding 2(2)
    by (rule mixed_settled [OF r allocated_DEFAULT [OF a] allocated_objs [OF a]])
qed


lemma resetCategoriesToDefault_eq:
  "snd (resetCategoriesToDefault io_remove st) =
     set_CATEGORIES_mixed
       (st\<lparr>persisted := snd (safeStorageRemove io_remove (persisted st) CUSTOM_CATEGORIES_KEY)\<rparr>)
       None (DEFAULT_CATEGORIES st)"
  by (simp add: resetCategoriesToDefault_def Let_def split_def)

lemma resetCategoriesToDefault_settled:
  assumes "allocated st"
  shows "settled (snd (resetCategoriesToDefault io_remove st))"
proof -
  let ?st1 = "st\<lparr>persisted := snd (safeStorageRemove io_remove (persisted st) CUSTOM_CATEGORIES_KEY)\<rparr>"
  have a: "allocated ?st1"
    using assms by (simp add: allocated_persisted)
  have "settled (set_CATEGORIES_mixed ?st1 None (DEFAULT_CATEGORIES ?st1))"
    by (rule mixed_settled [OF allocated_DEFAULT [OF a] allocated_DEFAULT [OF a]
          allocated_objs [OF a]])
  then show ?thesis
    unfolding resetCategoriesToDefault_eq by simp
qed


subsection \<open>The operations on one category\<close>

lemma allocated_arrs: "allocated (st\<lparr>arrs := f\<rparr>) = allocated st"
  by (simp add: allocated_def)


lemma allocated_set_words:
  assumes "allocated st" and "a < next_arr st"
  shows "allocated (st\<lparr>objs := (objs st)(r := (objs st r)\<lparr>words := Some a\<rparr>)\<rparr>)"
  using allocated_CATEGORIES [OF assms(1)] allocated_DEFAULT [OF assms(1)]
    heap_update_object [OF allocated_objs [OF assms(1)], of
      "(objs st r)\<lparr>words := Some a\<rparr>" "next_arr st" r] assms(2)
  by (intro allocatedI) simp_all


lemma allocated_delete:
  assumes "allocated st"
  shows "allocated (st\<lparr>CATEGORIES := obj_delete key (CATEGORIES st)\<rparr>)"
  using refs_obj_delete [OF allocated_CATEGORIES [OF assms], of key]
    allocated_DEFAULT [OF assms] allocated_objs [OF assms]
  by (intro allocatedI) simp_all


lemma assign_new_allocated:
  assumes "allocated st" and "\<forall>a. words c = Some a \<longrightarrow> a < next_arr st"
  shows "allocated (assign_category key (next_obj st) (snd (new_object c st)))"
  by (rule assign_category_allocated [OF new_object_allocated [OF assms]])
    (simp add: new_object_fields)



lemma new_array_next_obj: "next_obj (snd (new_array ws st)) = next_obj st"
  by (simp add: new_array_fields)

lemma saveCustomCategories_settled: "settled (snd (saveCustomCategories io_set st)) = settled st"
  by (simp add: saveCustomCategories_eq settled_persisted)


lemma settled_allocated: "settled st \<Longrightarrow> allocated st"
  by (simp add: settled_def)




text \<open>A category with a new array of words, assigned under a key and followed by the
  common ending: \<open>updateCategoryWords\<close> and \<open>createCategory\<close>.\<close>

lemma fresh_category_allocated:
  assumes "allocated st" and "words c = Some (next_arr st)"
  shows "allocated (assign_category key (next_obj st) (snd (new_object c (snd (new_array ws st)))))"
  using assign_new_allocated [OF new_array_allocated [OF assms(1)], of c ws key] assms(2)
  by (simp add: new_array_fields)


lemma updateCategoryWords_cases:
  obtains "updateCategoryWords io_set key ws st = st"
  | c where "words c = Some (next_arr st)"
      and "updateCategoryWords io_set key ws st =
             then_save io_set
               (assign_category key (next_obj st)
                  (snd (new_object c (snd (new_array (map Some ws) st)))))"
proof (cases "key = ''mixta'' \<or> \<not> truthy_found (lookup (proto_object st) (CATEGORIES st) key)")
  case True
  then have "updateCategoryWords io_set key ws st = st"
    by (auto simp: updateCategoryWords_def)
  then show ?thesis by (rule that(1))
next
  case False
  let ?c = "(spread_of (snd (new_array (map Some ws) st))
               (proto_object (snd (new_array (map Some ws) st)))
               (lookup (proto_object st) (CATEGORIES st) key))\<lparr>words := Some (next_arr st)\<rparr>"
  have "words ?c = Some (next_arr st)" by simp
  moreover have "updateCategoryWords io_set key ws st =
             then_save io_set
               (assign_category key (next_obj st)
                  (snd (new_object ?c (snd (new_array (map Some ws) st)))))"
    using False
    by (simp add: updateCategoryWords_def Let_def split_def new_array_fields new_object_fields)
  ultimately show ?thesis by (rule that(2))
qed

lemma updateCategoryWords_settled:
  assumes "settled st"
  shows "settled (updateCategoryWords io_set key ws st)"
proof (cases rule: updateCategoryWords_cases [of io_set key ws st])
  case 1
  with assms show ?thesis by simp
next
  case (2 c)
  show ?thesis
    unfolding 2(2)
    by (rule then_save_settled [OF fresh_category_allocated [OF settled_allocated [OF assms] 2(1)]])
qed


lemma createCategory_cases:
  obtains "snd (createCategory io_set key nm em ws st) = st"
  | c where "words c = Some (next_arr st)"
      and "snd (createCategory io_set key nm em ws st) =
             then_save io_set
               (assign_category key (next_obj st)
                  (snd (new_object c (snd (new_array (map Some ws) st)))))"
proof (cases "truthy_found (lookup (proto_object st) (CATEGORIES st) key)")
  case True
  then have "snd (createCategory io_set key nm em ws st) = st"
    by (simp add: createCategory_def)
  then show ?thesis by (rule that(1))
next
  case False
  let ?c = "\<lparr>emoji = Some em, name = Some nm, words = Some (next_arr st),
             isCustom = Some (JBool True)\<rparr>"
  have "words ?c = Some (next_arr st)" by simp
  moreover have "snd (createCategory io_set key nm em ws st) =
             then_save io_set
               (assign_category key (next_obj st)
                  (snd (new_object ?c (snd (new_array (map Some ws) st)))))"
    using False
    by (simp add: createCategory_def Let_def split_def new_array_fields new_object_fields)
  ultimately show ?thesis by (rule that(2))
qed

lemma createCategory_settled:
  assumes "settled st"
  shows "settled (snd (createCategory io_set key nm em ws st))"
proof (cases rule: createCategory_cases [of io_set key nm em ws st])
  case 1
  with assms show ?thesis by simp
next
  case (2 c)
  show ?thesis
    unfolding 2(2)
    by (rule then_save_settled [OF fresh_category_allocated [OF settled_allocated [OF assms] 2(1)]])
qed


lemma addWordToCategory_Inr:
  assumes "addWordToCategory io_set key word st = Inr st'"
  shows "st' = st \<or>
         (\<exists>a. key \<noteq> ''mixta'' \<and>
            words (properties_of st (proto_object st)
                     (lookup (proto_object st) (CATEGORIES st) key)) = Some a \<and>
            Some word \<notin> set (arrs st a) \<and>
            st' = then_save io_set (st\<lparr>arrs := (arrs st)(a := arrs st a @ [Some word])\<rparr>))"
  using assms
  by (auto simp: addWordToCategory_def Let_def split: if_splits option.splits)

lemma addWordToCategory_settled:
  assumes "settled st" and "addWordToCategory io_set key word st = Inr st'"
  shows "settled st'"
  using addWordToCategory_Inr [OF assms(2)] assms(1)
    then_save_settled [of "st\<lparr>arrs := f\<rparr>" io_set for f]
  by (auto simp: allocated_arrs settled_allocated)


lemma removeWordFromCategory_Inr:
  assumes "removeWordFromCategory io_set key word st = Inr st'"
  shows "st' = st \<or>
         (\<exists>r ws. st' = then_save io_set
            ((snd (new_array ws st))\<lparr>objs :=
               (objs (snd (new_array ws st)))(r :=
                 (objs (snd (new_array ws st)) r)\<lparr>words := Some (next_arr st)\<rparr>)\<rparr>))"
  using assms
  by (auto simp: removeWordFromCategory_def Let_def split_def new_array_fields
      split: if_splits option.splits)

lemma removeWordFromCategory_settled:
  assumes "settled st" and "removeWordFromCategory io_set key word st = Inr st'"
  shows "settled st'"
proof -
  have "allocated ((snd (new_array ws st))\<lparr>objs :=
               (objs (snd (new_array ws st)))(r :=
                 (objs (snd (new_array ws st)) r)\<lparr>words := Some (next_arr st)\<rparr>)\<rparr>)" for r ws
    by (rule allocated_set_words [OF new_array_allocated [OF settled_allocated [OF assms(1)]]])
      (simp add: new_array_fields)
  then show ?thesis
    using removeWordFromCategory_Inr [OF assms(2)] assms(1) then_save_settled by blast
qed


lemma deleteCategory_cases:
  "snd (deleteCategory io_set key st) = st \<or>
   snd (deleteCategory io_set key st) =
     then_save io_set (st\<lparr>CATEGORIES := obj_delete key (CATEGORIES st)\<rparr>)"
  by (simp add: deleteCategory_def Let_def)

lemma deleteCategory_settled:
  assumes "settled st"
  shows "settled (snd (deleteCategory io_set key st))"
  using deleteCategory_cases [of io_set key st] assms
    then_save_settled [OF allocated_delete [OF settled_allocated [OF assms]]]
  by auto


lemma spread_default_words:
  assumes "allocated st"
    and "words (spread_of st None (lookup None (DEFAULT_CATEGORIES st) key)) = Some a"
  shows "a < next_arr st"
proof (cases "map_of (DEFAULT_CATEGORIES st) key")
  case None
  with assms(2) show ?thesis
    by (simp add: lookup_def spread_of_def in_Object_prototype_def no_properties_def
        split: if_splits)
next
  case (Some r)
  with assms(2) have "words (objs st r) = Some a"
    by (simp add: lookup_def spread_of_def)
  moreover have "r < next_obj st"
    using allocated_DEFAULT [OF assms(1)] map_of_ref [OF Some] by blast
  ultimately show ?thesis
    using allocated_objs [OF assms(1)] by blast
qed

lemma resetCategoryToDefault_cases:
  "resetCategoryToDefault io_set key st = st \<or>
   resetCategoryToDefault io_set key st =
     then_save io_set
       (assign_category key (next_obj st)
          (snd (new_object (spread_of st None (lookup None (DEFAULT_CATEGORIES st) key)) st)))"
  by (simp add: resetCategoryToDefault_def Let_def split_def new_object_fields)

lemma resetCategoryToDefault_settled:
  assumes "settled st"
  shows "settled (resetCategoryToDefault io_set key st)"
proof -
  have a: "allocated st"
    using assms by (rule settled_allocated)
  have "\<forall>a. words (spread_of st None (lookup None (DEFAULT_CATEGORIES st) key)) = Some a \<longrightarrow>
          a < next_arr st"
    using spread_default_words [OF a] by blast
  from then_save_settled [OF assign_new_allocated [OF a this]]
  show ?thesis
    using resetCategoryToDefault_cases [of io_set key st] assms by auto
qed


subsection \<open>Changing name and emoji\<close>

lemma spread_current_words:
  assumes "settled st"
    and "words (spread_of st (proto_object st) (lookup (proto_object st) (CATEGORIES st) key))
           = Some a"
  shows "a < next_arr st"
proof (cases "map_of (CATEGORIES st) key")
  case (Some r)
  with assms(2) have "words (objs st r) = Some a"
    by (simp add: lookup_def spread_of_def)
  moreover have "r < next_obj st"
    using allocated_CATEGORIES [OF settled_allocated [OF assms(1)]] map_of_ref [OF Some] by blast
  ultimately show ?thesis
    using allocated_objs [OF settled_allocated [OF assms(1)]] by blast
next
  case None
  have "words (spread_of st (proto_object st) (lookup (proto_object st) (CATEGORIES st) key))
          = None"
  proof (cases "proto st")
    case no_proto: None
    with None show ?thesis
      by (simp add: lookup_def spread_of_def proto_object_def in_Object_prototype_def
          no_properties_def)
  next
    case (Some p)
    with assms(1) have "words (objs st p) = None"
      unfolding settled_def by simp
    with None Some show ?thesis
      by (simp add: lookup_def spread_of_def proto_object_def in_Object_prototype_def
          no_properties_def)
  qed
  with assms(2) show ?thesis by simp
qed

lemma spread_prototype:
  assumes "settled st" and "map_of (CATEGORIES st) ''__proto__'' = None"
  shows "words (spread_of st (proto_object st)
                  (lookup (proto_object st) (CATEGORIES st) ''__proto__'')) = None \<and>
         isCustom (spread_of st (proto_object st)
                  (lookup (proto_object st) (CATEGORIES st) ''__proto__'')) = None"
proof (cases "proto st")
  case None
  with assms(2) show ?thesis
    by (simp add: lookup_def spread_of_def proto_object_def no_properties_def)
next
  case (Some p)
  with assms(1) have "words (objs st p) = None \<and> isCustom (objs st p) = None"
    unfolding settled_def by simp
  with assms(2) Some show ?thesis
    by (simp add: lookup_def spread_of_def proto_object_def)
qed

lemma assign_new_settled:
  assumes "settled st" and "key \<noteq> ''mixta''"
    and "\<forall>a. words c = Some a \<longrightarrow> a < next_arr st"
    and "map_of (CATEGORIES st) key = None \<and> key = ''__proto__'' \<longrightarrow>
           words c = None \<and> isCustom c = None"
  shows "settled (assign_category key (next_obj st) (snd (new_object c st)))"
proof -
  let ?st' = "assign_category key (next_obj st) (snd (new_object c st))"
  have a: "allocated st"
    using assms(1) by (rule settled_allocated)
  from assms(1) obtain m b where m: "map_of (CATEGORIES st) ''mixta'' = Some m"
    and b: "words (objs st m) = Some b"
    unfolding settled_def by blast
  have "m < next_obj st"
    using allocated_CATEGORIES [OF a] map_of_ref [OF m] by blast
  then have m': "words (objs ?st' m) = Some b"
    using b by (simp add: assign_category_fields new_object_fields)
  have mixta': "map_of (CATEGORIES ?st') ''mixta'' = Some m"
    using m assms(2) by (simp add: assign_category_def new_object_fields map_of_obj_set)
  have proto': "p < next_obj ?st' \<and> words (objs ?st' p) = None \<and> isCustom (objs ?st' p) = None"
    if p: "proto ?st' = Some p" for p
  proof (cases "map_of (CATEGORIES st) key = None \<and> key = ''__proto__''")
    case True
    then have k: "key = ''__proto__''" and n: "map_of (CATEGORIES st) ''__proto__'' = None"
      by auto
    from p have "p = next_obj st"
      unfolding k using n by (simp add: assign_category_def new_object_fields)
    moreover from True assms(4) have "words c = None \<and> isCustom c = None"
      by blast
    ultimately show ?thesis
      by (simp add: assign_category_fields new_object_fields)
  next
    case False
    with p have "proto st = Some p"
      by (auto simp: assign_category_def new_object_fields)
    with assms(1) have "p < next_obj st \<and> words (objs st p) = None \<and> isCustom (objs st p) = None"
      unfolding settled_def by simp
    then show ?thesis
      by (simp add: assign_category_fields new_object_fields)
  qed
  from assign_new_allocated [OF a assms(3)] mixta' m' proto' show ?thesis
    unfolding settled_def by blast
qed

lemma updateCategoryMeta_cases:
  obtains "updateCategoryMeta io_set key upd_name upd_emoji st = st"
  | c where "key \<noteq> ''mixta''"
      and "words c = words (spread_of st (proto_object st)
                              (lookup (proto_object st) (CATEGORIES st) key))"
      and "isCustom c = isCustom (spread_of st (proto_object st)
                              (lookup (proto_object st) (CATEGORIES st) key))"
      and "updateCategoryMeta io_set key upd_name upd_emoji st =
             snd (saveCustomCategories io_set
                    (assign_category key (next_obj st) (snd (new_object c st))))"
proof (cases "key = ''mixta'' \<or> \<not> truthy_found (lookup (proto_object st) (CATEGORIES st) key)")
  case True
  then have "updateCategoryMeta io_set key upd_name upd_emoji st = st"
    by (auto simp: updateCategoryMeta_def)
  then show ?thesis by (rule that(1))
next
  case False
  let ?c = "spread_of st (proto_object st) (lookup (proto_object st) (CATEGORIES st) key)"
  let ?c1 = "case upd_name of None \<Rightarrow> ?c | Some n \<Rightarrow> ?c\<lparr>name := n\<rparr>"
  let ?c2 = "case upd_emoji of None \<Rightarrow> ?c1 | Some e \<Rightarrow> ?c1\<lparr>emoji := e\<rparr>"
  have "key \<noteq> ''mixta''"
    using False by simp
  moreover have "words ?c2 = words ?c"
    by (simp split: option.splits)
  moreover have "isCustom ?c2 = isCustom ?c"
    by (simp split: option.splits)
  moreover have "updateCategoryMeta io_set key upd_name upd_emoji st =
             snd (saveCustomCategories io_set
                    (assign_category key (next_obj st) (snd (new_object ?c2 st))))"
    using False
    by (simp add: updateCategoryMeta_def Let_def split_def new_object_fields)
  ultimately show ?thesis by (rule that(2))
qed

lemma updateCategoryMeta_settled:
  assumes "settled st"
  shows "settled (updateCategoryMeta io_set key upd_name upd_emoji st)"
proof (cases rule: updateCategoryMeta_cases [of io_set key upd_name upd_emoji st])
  case 1
  with assms show ?thesis by simp
next
  case (2 c)
  have w: "\<forall>a. words c = Some a \<longrightarrow> a < next_arr st"
    unfolding 2(2) using spread_current_words [OF assms] by blast
  have p: "map_of (CATEGORIES st) key = None \<and> key = ''__proto__'' \<longrightarrow>
           words c = None \<and> isCustom c = None"
    unfolding 2(2) 2(3) using spread_prototype [OF assms] by auto
  show ?thesis
    unfolding 2(4) saveCustomCategories_settled
    by (rule assign_new_settled [OF assms 2(1) w p])
qed



subsection \<open>The states that are reached\<close>

lemma reachable_invariant:
  assumes "reachable table st"
  shows "settled st"
  using assms
proof (induction rule: reachable.induct)
  case (init disk)
  show ?case by (rule tidy_settled [OF module_init_tidy])
next
  case (load st io_get io_remove)
  then show ?case by (simp add: loadCustomCategories_settled settled_allocated)
next
  case (update_words st io_set key ws)
  then show ?case by (simp add: updateCategoryWords_settled)
next
  case (add_word st io_set key word st')
  then show ?case by (simp add: addWordToCategory_settled)
next
  case (remove_word st io_set key word st')
  then show ?case by (simp add: removeWordFromCategory_settled)
next
  case (create st io_set key nm em ws)
  then show ?case by (simp add: createCategory_settled)
next
  case (delete st io_set key)
  then show ?case by (simp add: deleteCategory_settled)
next
  case (update_meta st io_set key upd_name upd_emoji)
  then show ?case by (simp add: updateCategoryMeta_settled)
next
  case (reset_one st io_set key)
  then show ?case by (simp add: resetCategoryToDefault_settled)
next
  case (reset_all st io_remove)
  then show ?case by (simp add: resetCategoriesToDefault_settled settled_allocated)
qed


lemma ordinary_reachable_reachable:
  assumes "ordinary_reachable table st"
  shows "reachable table st"
  using assms
proof (induction rule: ordinary_reachable.induct)
  case (init disk)
  show ?case by (rule reachable.init)
next
  case (load st io_get io_remove)
  then show ?case by (simp add: reachable.load)
next
  case (update_words st io_set key ws)
  then show ?case by (simp add: reachable.update_words)
next
  case (add_word st io_set key word st')
  then show ?case using reachable.add_word by blast
next
  case (remove_word st io_set key word st')
  then show ?case using reachable.remove_word by blast
next
  case (create st io_set key nm em ws)
  then show ?case by (simp add: reachable.create)
next
  case (delete st io_set key)
  then show ?case by (simp add: reachable.delete)
next
  case (update_meta st key io_set upd_name upd_emoji)
  then show ?case by (simp add: reachable.update_meta)
next
  case (reset_one st key io_set)
  then show ?case by (simp add: reachable.reset_one)
next
  case (reset_all st io_remove)
  then show ?case by (simp add: reachable.reset_all)
qed

lemma reachable_words_for:
  assumes "reachable table st"
  shows "\<exists>ws. words_for st category = Inr ws"
proof -
  from reachable_invariant [OF assms] obtain m a
    where m: "map_of (CATEGORIES st) ''mixta'' = Some m" and a: "words (objs st m) = Some a"
    unfolding settled_def by blast
  have "lookup (proto_object st) (CATEGORIES st) ''mixta'' = Own m"
    using m by (rule lookup_own)
  then show ?thesis
    using a
    by (simp add: words_for_def Let_def properties_of_def word_list_def split: option.splits)
qed

subsection \<open>Concrete runs of the category store\<close>

lemma array_index_comida: "array_index ''comida'' = None"
  by (simp add: array_index_def)

lemma array_index_animales: "array_index ''animales'' = None"
  by (simp add: array_index_def)

lemma array_index_constructor: "array_index ''constructor'' = None"
  by (simp add: array_index_def)

lemmas sample_run =
  module_init_def sample_table_def empty_store_def new_array_def new_object_def obj_set_def
  array_index_mixta array_index_comida array_index_animales array_index_constructor
  set_CATEGORIES_mixed_eq getAllWords_def word_list_def then_save_def saveCustomCategories_eq
  Let_def proto_object_def lookup_def spread_of_def properties_of_def no_properties_def
  in_Object_prototype_def OBJECT_METHODS_def assign_category_def


subsection \<open>Claims on the category store\<close>







text \<open>
  Claim C8 describes what \<open>isCategoryModified\<close> is for, and the code misses it.
  \<open>CATEGORIES\<close> starts as a shallow copy of \<open>DEFAULT_CATEGORIES\<close>, so both refer to the same
  category objects; \<open>addWordToCategory\<close> pushes the word onto the array of that shared
  object. After adding \<open>Dragon\<close> to the built-in category \<open>animales\<close>, the current word
  list differs from the shipped one, yet \<open>isCategoryModified\<close> compares the object with
  itself and answers \<open>false\<close>, and \<open>saveCustomCategories\<close> writes an empty set of
  customizations.
\<close>

theorem isCategoryModified_after_add:
  "map_of sample_table ''animales'' = Some (''lion'', ''Animales'', [''Perro'', ''Gato'']) \<and>
   \<not> isl (addWordToCategory Completed ''animales'' ''Dragon''
            (module_init sample_table Map.empty)) \<and>
   map_of (CATEGORIES (projr (addWordToCategory Completed ''animales'' ''Dragon''
                         (module_init sample_table Map.empty)))) ''animales'' = Some 2 \<and>
   word_list
     (projr (addWordToCategory Completed ''animales'' ''Dragon''
               (module_init sample_table Map.empty)))
     (objs (projr (addWordToCategory Completed ''animales'' ''Dragon''
                     (module_init sample_table Map.empty))) 2) =
     Some [Some ''Perro'', Some ''Gato'', Some ''Dragon''] \<and>
   isCategoryModified ''animales''
     (projr (addWordToCategory Completed ''animales'' ''Dragon''
               (module_init sample_table Map.empty))) = Inr False \<and>
   persisted (projr (addWordToCategory Completed ''animales'' ''Dragon''
                (module_init sample_table Map.empty))) CUSTOM_CATEGORIES_KEY =
     Some (Json (JObj []))"
  by (simp add: sample_run addWordToCategory_def isCategoryModified_def custom_entry_def
      truthy_opt_def)

theorem isCategoryModified_after_add_witness:
  "isCategoryModified ''animales''
     (projr (addWordToCategory Completed ''animales'' ''Dragon''
               (module_init sample_table Map.empty))) = Inr False \<and>
   word_list
     (projr (addWordToCategory Completed ''animales'' ''Dragon''
               (module_init sample_table Map.empty)))
     (objs (projr (addWordToCategory Completed ''animales'' ''Dragon''
                     (module_init sample_table Map.empty))) 2) \<noteq>
     Some [Some ''Perro'', Some ''Gato'']"
  using isCategoryModified_after_add by simp

subsection \<open>Roles of a round\<close>

lemma selectUniqueIndices_result:
  assumes "selectUniqueIndices env n cnt mx exclude = (indices, n')"
  shows "distinct indices \<and> set indices \<subseteq> {0..<mx} - set exclude \<and>
    length indices = min cnt (card ({0..<mx} - set exclude))"
proof -
  have d: "distinct ([] @ available_pool mx exclude)"
    by (simp add: available_pool_def)
  have run: "select_loop env n cnt (available_pool mx exclude) [] = (indices, n')"
    using assms by (simp add: selectUniqueIndices_def)
  have pool: "set (available_pool mx exclude) = {0..<mx} - set exclude"
    by (auto simp: available_pool_def)
  have "length (available_pool mx exclude) = card (set (available_pool mx exclude))"
    using distinct_card [of "available_pool mx exclude"] by (simp add: available_pool_def)
  with pool have len: "length (available_pool mx exclude) = card ({0..<mx} - set exclude)"
    by simp
  from select_loop_inv [OF d run] pool len show ?thesis by auto
qed

lemma count_members:
  assumes "distinct xs" and "set xs \<subseteq> {0..<n}"
  shows "length (filter (\<lambda>i. i \<in> set xs) [0..<n]) = length xs"
proof -
  have "set (filter (\<lambda>i. i \<in> set xs) [0..<n]) = set xs"
    using assms(2) by auto
  moreover have "distinct (filter (\<lambda>i. i \<in> set xs) [0..<n])"
    by simp
  ultimately show ?thesis
    using assms(1) by (metis distinct_card)
qed

lemma count_one:
  assumes "j < n"
  shows "length (filter (\<lambda>i. i = j) [0..<n]) = 1"
  using count_members [of "[j]" n] assms by simp

lemma role_at_impostor:
  "role (role_at cfg shuffled impostors jesterIdx i) = impostor \<longleftrightarrow> i \<in> set impostors"
  by (simp add: role_at_def)

lemma role_at_jester:
  "role (role_at cfg shuffled impostors jesterIdx i) = jester_role \<longleftrightarrow>
     i \<notin> set impostors \<and> int i = jesterIdx"
  by (simp add: role_at_def)

lemma role_at_citizen:
  "role (role_at cfg shuffled impostors jesterIdx i) = citizen \<longleftrightarrow>
     i \<notin> set impostors \<and> int i \<noteq> jesterIdx"
  by (simp add: role_at_def)

lemma role_at_knowsWord:
  "knowsWord (role_at cfg shuffled impostors jesterIdx i) \<longleftrightarrow>
     role (role_at cfg shuffled impostors jesterIdx i) \<noteq> impostor"
  by (simp add: role_at_def)

lemma shuffle_loop_length:
  "shuffle_loop env n (length xs - 1) xs = (ys, n') \<Longrightarrow> length ys = length xs"
  using shuffle_loop_perm [of "length xs - 1" xs env n] mset_eq_length [of ys xs] by simp

lemma startNewGame_with_selection:
  assumes valid: "impostorCount cfg + (if hasJester cfg then 1 else 0) < minPlayers cfg"
    and enough: "minPlayers cfg \<le> length players"
    and ws: "words_for st category = Inr ws"
  shows "\<exists>round n'. startNewGame_with cfg env n players category st = Inr (round, n') \<and>
      mset (shuffledPlayers round) = mset players \<and>
      selection_ok cfg (length players) (impostorIndices round) (jesterIndex round) \<and>
      playerRoles round =
        map (role_at cfg (shuffledPlayers round) (impostorIndices round) (jesterIndex round))
          [0..<length players]"
proof -
  obtain shuffled n1 where sh: "shuffle_loop env n (length players - 1) players = (shuffled, n1)"
    by (cases "shuffle_loop env n (length players - 1) players")
  have perm: "mset shuffled = mset players"
    using shuffle_loop_perm [of "length players - 1" players env n] sh by simp
  have len: "length shuffled = length players"
    using sh by (rule shuffle_loop_length)
  obtain impostors n2
    where imp: "selectUniqueIndices env n1 (impostorCount cfg) (length players) [] = (impostors, n2)"
    by (cases "selectUniqueIndices env n1 (impostorCount cfg) (length players) []")
  from selectUniqueIndices_result [OF imp]
  have i1: "distinct impostors" and i2: "set impostors \<subseteq> {0..<length players}"
    and i3: "length impostors = impostorCount cfg"
    using valid enough by auto
  obtain jesterIndices k
    where js: "selectUniqueIndices env n2 1 (length players) impostors = (jesterIndices, k)"
    by (cases "selectUniqueIndices env n2 1 (length players) impostors")
  have "card ({0..<length players} - set impostors) = length players - length impostors"
    using i1 i2 by (simp add: card_Diff_subset distinct_card)
  with selectUniqueIndices_result [OF js] i3 valid enough
  have j: "hasJester cfg \<longrightarrow>
      (\<exists>j. jesterIndices = [j] \<and> j < length players \<and> j \<notin> set impostors)"
    by (cases jesterIndices) (auto split: if_splits)
  let ?jesterIdx = "if hasJester cfg
      then (case jesterIndices of [] \<Rightarrow> - 1 | j # rest \<Rightarrow> int j) else - 1"
  let ?n3 = "if hasJester cfg then k else n2"
  let ?round = "\<lparr>shuffledPlayers = shuffled, impostorIndices = impostors,
      jesterIndex = ?jesterIdx,
      playerRoles = map (role_at cfg shuffled impostors ?jesterIdx) [0..<length players],
      secretWord = Option.bind (element_at ws (secureRandom (env ?n3) (length ws))) id,
      starterPlayer = element_at shuffled (secureRandom (env (Suc ?n3)) (length players))\<rparr>"
  have "startNewGame_with cfg env n players category st = Inr (?round, Suc (Suc ?n3))"
    using sh len imp js ws by (simp add: startNewGame_with_def Let_def)
  moreover have "selection_ok cfg (length players) impostors ?jesterIdx"
    using i1 i2 i3 j by (auto simp: selection_ok_def)
  ultimately show ?thesis
    using perm by simp
qed

lemma roles_counts:
  assumes "selection_ok cfg playerCount impostors jesterIdx"
  shows "length (filter (\<lambda>p. role p = impostor)
           (map (role_at cfg shuffled impostors jesterIdx) [0..<playerCount])) = impostorCount cfg"
    and "length (filter (\<lambda>p. role p = jester_role)
           (map (role_at cfg shuffled impostors jesterIdx) [0..<playerCount])) =
         (if hasJester cfg then 1 else 0)"
proof -
  have d: "distinct impostors" and s: "set impostors \<subseteq> {0..<playerCount}"
    and l: "length impostors = impostorCount cfg"
    using assms by (simp_all add: selection_ok_def)
  show "length (filter (\<lambda>p. role p = impostor)
           (map (role_at cfg shuffled impostors jesterIdx) [0..<playerCount])) = impostorCount cfg"
    using count_members [OF d s] l by (simp add: filter_map comp_def role_at_impostor)
  show "length (filter (\<lambda>p. role p = jester_role)
           (map (role_at cfg shuffled impostors jesterIdx) [0..<playerCount])) =
         (if hasJester cfg then 1 else 0)"
  proof (cases "hasJester cfg")
    case True
    then have j: "0 \<le> jesterIdx" "nat jesterIdx < playerCount" "nat jesterIdx \<notin> set impostors"
      using assms by (simp_all add: selection_ok_def)
    have "(\<lambda>i. i \<notin> set impostors \<and> int i = jesterIdx) = (\<lambda>i. i = nat jesterIdx)"
      using j by (intro ext) auto
    then show ?thesis
      using True count_one [OF j(2)] by (simp add: filter_map comp_def role_at_jester)
  next
    case False
    then have "jesterIdx = - 1"
      using assms by (simp add: selection_ok_def)
    then show ?thesis
      using False by (simp add: filter_map comp_def role_at_jester)
  qed
qed

lemma GAME_VARIANTS_valid:
  "impostorCount (GAME_VARIANTS v) + (if hasJester (GAME_VARIANTS v) then 1 else 0)
     < minPlayers (GAME_VARIANTS v)"
  by (cases v) simp_all

lemma role_partition:
  "length ps = length (filter (\<lambda>p. role p = impostor) ps)
             + length (filter (\<lambda>p. role p = jester_role) ps)
             + length (filter (\<lambda>p. role p = citizen) ps)"
proof (induction ps)
  case Nil
  show ?case by simp
next
  case (Cons p ps)
  then show ?case by (cases "role p") simp_all
qed

text \<open>
  Claim C1. For every built-in variant and every player list with at least
  \<open>minPlayers\<close> names, \<open>startNewGame\<close> returns a round whose \<open>playerRoles\<close> has one record
  per player, exactly \<open>impostorCount\<close> of them with role impostor, exactly one with role
  jester when the variant has a jester and none otherwise, and all others with role
  citizen; \<open>knowsWord\<close> is false on a record exactly when its role is impostor.
\<close>

theorem startNewGame_roles:
  assumes "reachable table st"
    and "minPlayers (GAME_VARIANTS variant) \<le> length players"
  shows "\<exists>round n'. startNewGame env n players category variant st = Inr (round, n') \<and>
      length (playerRoles round) = length players \<and>
      length (filter (\<lambda>p. role p = impostor) (playerRoles round)) =
        impostorCount (GAME_VARIANTS variant) \<and>
      length (filter (\<lambda>p. role p = jester_role) (playerRoles round)) =
        (if hasJester (GAME_VARIANTS variant) then 1 else 0) \<and>
      length (filter (\<lambda>p. role p = citizen) (playerRoles round)) =
        length players - impostorCount (GAME_VARIANTS variant)
          - (if hasJester (GAME_VARIANTS variant) then 1 else 0) \<and>
      (\<forall>p \<in> set (playerRoles round). knowsWord p \<longleftrightarrow> role p \<noteq> impostor)"
proof -
  let ?cfg = "GAME_VARIANTS variant"
  obtain ws where ws: "words_for st category = Inr ws"
    using reachable_words_for [OF assms(1)] by blast
  from startNewGame_with_selection [OF GAME_VARIANTS_valid assms(2) ws, of env n]
  obtain round n' where run: "startNewGame_with ?cfg env n players category st = Inr (round, n')"
    and sel: "selection_ok ?cfg (length players) (impostorIndices round) (jesterIndex round)"
    and roles: "playerRoles round =
        map (role_at ?cfg (shuffledPlayers round) (impostorIndices round) (jesterIndex round))
          [0..<length players]"
    by blast
  have len: "length (playerRoles round) = length players"
    using roles by simp
  have imp: "length (filter (\<lambda>p. role p = impostor) (playerRoles round)) = impostorCount ?cfg"
    unfolding roles by (rule roles_counts(1) [OF sel])
  have jes: "length (filter (\<lambda>p. role p = jester_role) (playerRoles round)) =
        (if hasJester ?cfg then 1 else 0)"
    unfolding roles by (rule roles_counts(2) [OF sel])
  have cit: "length (filter (\<lambda>p. role p = citizen) (playerRoles round)) =
        length players - impostorCount ?cfg - (if hasJester ?cfg then 1 else 0)"
    using role_partition [of "playerRoles round"] len imp jes by simp
  have kw: "\<forall>p \<in> set (playerRoles round). knowsWord p \<longleftrightarrow> role p \<noteq> impostor"
    unfolding roles by (auto simp: role_at_knowsWord)
  from run len imp jes cit kw show ?thesis
    unfolding startNewGame_def by blast
qed

text \<open>
  Claim C2. For every variant with two impostors that know each other and every player
  list with at least \<open>minPlayers\<close> names, the round has two distinct impostor indices; the
  record at each of them has role impostor and carries as \<open>partnerName\<close> the shuffled
  player at the other index, so the relation is symmetric; a record whose role is not
  impostor carries no \<open>partnerName\<close>.
\<close>

theorem startNewGame_partners:
  assumes "reachable table st"
    and "minPlayers (GAME_VARIANTS variant) \<le> length players"
    and "impostorCount (GAME_VARIANTS variant) = 2"
    and "impostorsKnowEachOther (GAME_VARIANTS variant)"
  shows "\<exists>round n' a b. startNewGame env n players category variant st = Inr (round, n') \<and>
      impostorIndices round = [a, b] \<and> a \<noteq> b \<and>
      a < length (playerRoles round) \<and> b < length (playerRoles round) \<and>
      length (shuffledPlayers round) = length (playerRoles round) \<and>
      role (playerRoles round ! a) = impostor \<and> role (playerRoles round ! b) = impostor \<and>
      partnerName (playerRoles round ! a) = Some (shuffledPlayers round ! b) \<and>
      partnerName (playerRoles round ! b) = Some (shuffledPlayers round ! a) \<and>
      (\<forall>i < length (playerRoles round).
         role (playerRoles round ! i) \<noteq> impostor \<longrightarrow> partnerName (playerRoles round ! i) = None)"
proof -
  let ?cfg = "GAME_VARIANTS variant"
  obtain ws where ws: "words_for st category = Inr ws"
    using reachable_words_for [OF assms(1)] by blast
  from startNewGame_with_selection [OF GAME_VARIANTS_valid assms(2) ws, of env n]
  obtain round n' where run: "startNewGame_with ?cfg env n players category st = Inr (round, n')"
    and perm: "mset (shuffledPlayers round) = mset players"
    and sel: "selection_ok ?cfg (length players) (impostorIndices round) (jesterIndex round)"
    and roles: "playerRoles round =
        map (role_at ?cfg (shuffledPlayers round) (impostorIndices round) (jesterIndex round))
          [0..<length players]"
    by blast
  have slen: "length (shuffledPlayers round) = length players"
    using perm by (rule mset_eq_length)
  have "length (impostorIndices round) = 2"
    using sel assms(3) by (simp add: selection_ok_def)
  then obtain a b where ab: "impostorIndices round = [a, b]"
    by (cases "impostorIndices round" rule: list.exhaust)
      (auto simp: length_Suc_conv numeral_2_eq_2)
  have d: "a \<noteq> b" and la: "a < length players" and lb: "b < length players"
    using sel ab by (simp_all add: selection_ok_def)
  have ra: "playerRoles round ! a = role_at ?cfg (shuffledPlayers round) [a, b] (jesterIndex round) a"
    and rb: "playerRoles round ! b = role_at ?cfg (shuffledPlayers round) [a, b] (jesterIndex round) b"
    using la lb ab by (simp_all add: roles)
  have others: "\<forall>i < length (playerRoles round).
         role (playerRoles round ! i) \<noteq> impostor \<longrightarrow> partnerName (playerRoles round ! i) = None"
    by (simp add: roles role_at_def)
  have "role (playerRoles round ! a) = impostor" "role (playerRoles round ! b) = impostor"
    "partnerName (playerRoles round ! a) = Some (shuffledPlayers round ! b)"
    "partnerName (playerRoles round ! b) = Some (shuffledPlayers round ! a)"
    using d la lb slen assms(3,4)
    by (simp_all add: ra rb role_at_def element_at_def)
  with run ab d la lb slen others show ?thesis
    unfolding startNewGame_def by (simp add: roles)
qed

subsection \<open>Concrete rounds\<close>

lemma shuffle_five:
  "shuffle_loop fallback_env 0 (Suc (Suc (Suc (Suc 0)))) [''Ana'', ''Bea'', ''Cid'', ''Dan'', ''Eva''] =
     ([''Bea'', ''Cid'', ''Dan'', ''Eva'', ''Ana''], 4)"
  by (simp add: secureRandom_fallback_env)

lemma shuffle_six:
  "shuffle_loop fallback_env 0 (Suc (Suc (Suc (Suc (Suc 0)))))
     [''Ana'', ''Bea'', ''Cid'', ''Dan'', ''Eva'', ''Fer''] =
     ([''Bea'', ''Cid'', ''Dan'', ''Eva'', ''Fer'', ''Ana''], 5)"
  by (simp add: secureRandom_fallback_env)

lemma select_two_of_five:
  "selectUniqueIndices fallback_env n 2 (Suc (Suc (Suc (Suc (Suc 0))))) [] = ([0, 1], Suc (Suc n))"
  by (simp add: selectUniqueIndices_def available_pool_def secureRandom_fallback_env
      numeral_2_eq_2)

lemma select_two_of_six:
  "selectUniqueIndices fallback_env n 2 (Suc (Suc (Suc (Suc (Suc (Suc 0)))))) [] =
     ([0, 1], Suc (Suc n))"
  by (simp add: selectUniqueIndices_def available_pool_def secureRandom_fallback_env
      numeral_2_eq_2)

lemma select_jester_of_six:
  "selectUniqueIndices fallback_env n (Suc 0) (Suc (Suc (Suc (Suc (Suc (Suc 0)))))) [0, Suc 0] =
     ([2], Suc n)"
  by (simp add: selectUniqueIndices_def available_pool_def secureRandom_fallback_env)

lemma animales_words:
  "words_for (module_init sample_table Map.empty) ''animales'' =
     Inr [Some ''Perro'', Some ''Gato'']"
  by (simp add: sample_run words_for_def)

theorem startNewGame_roles_witness:
  "reachable sample_table (module_init sample_table Map.empty) \<and>
   minPlayers (GAME_VARIANTS chaos) \<le> length [''Ana'', ''Bea'', ''Cid'', ''Dan'', ''Eva'', ''Fer''] \<and>
   startNewGame fallback_env 0 [''Ana'', ''Bea'', ''Cid'', ''Dan'', ''Eva'', ''Fer''] ''animales'' chaos
     (module_init sample_table Map.empty) =
   Inr (\<lparr>shuffledPlayers = [''Bea'', ''Cid'', ''Dan'', ''Eva'', ''Fer'', ''Ana''],
         impostorIndices = [0, 1], jesterIndex = 2,
         playerRoles =
           [\<lparr>role = impostor, knowsWord = False, partnerName = None\<rparr>,
            \<lparr>role = impostor, knowsWord = False, partnerName = None\<rparr>,
            \<lparr>role = jester_role, knowsWord = True, partnerName = None\<rparr>,
            \<lparr>role = citizen, knowsWord = True, partnerName = None\<rparr>,
            \<lparr>role = citizen, knowsWord = True, partnerName = None\<rparr>,
            \<lparr>role = citizen, knowsWord = True, partnerName = None\<rparr>],
         secretWord = Some ''Perro'', starterPlayer = Some ''Bea''\<rparr>, 10)"
proof -
  have r: "reachable sample_table (module_init sample_table Map.empty)"
    by (rule reachable.init)
  have m: "minPlayers (GAME_VARIANTS chaos) \<le>
      length [''Ana'', ''Bea'', ''Cid'', ''Dan'', ''Eva'', ''Fer'']"
    by simp
  from startNewGame_roles [OF r m, of fallback_env 0 "''animales''"] r m show ?thesis
    by (simp add: startNewGame_def startNewGame_with_def shuffle_six select_two_of_six
        select_jester_of_six animales_words role_at_def element_at_def
        secureRandom_fallback_env)
qed

theorem startNewGame_partners_witness:
  "reachable sample_table (module_init sample_table Map.empty) \<and>
   minPlayers (GAME_VARIANTS accomplices) \<le> length [''Ana'', ''Bea'', ''Cid'', ''Dan'', ''Eva''] \<and>
   impostorCount (GAME_VARIANTS accomplices) = 2 \<and>
   impostorsKnowEachOther (GAME_VARIANTS accomplices) \<and>
   startNewGame fallback_env 0 [''Ana'', ''Bea'', ''Cid'', ''Dan'', ''Eva''] ''animales'' accomplices
     (module_init sample_table Map.empty) =
   Inr (\<lparr>shuffledPlayers = [''Bea'', ''Cid'', ''Dan'', ''Eva'', ''Ana''],
         impostorIndices = [0, 1], jesterIndex = - 1,
         playerRoles =
           [\<lparr>role = impostor, knowsWord = False, partnerName = Some ''Cid''\<rparr>,
            \<lparr>role = impostor, knowsWord = False, partnerName = Some ''Bea''\<rparr>,
            \<lparr>role = citizen, knowsWord = True, partnerName = None\<rparr>,
            \<lparr>role = citizen, knowsWord = True, partnerName = None\<rparr>,
            \<lparr>role = citizen, knowsWord = True, partnerName = None\<rparr>],
         secretWord = Some ''Perro'', starterPlayer = Some ''Bea''\<rparr>, 8)"
proof -
  have r: "reachable sample_table (module_init sample_table Map.empty)"
    by (rule reachable.init)
  have m: "minPlayers (GAME_VARIANTS accomplices) \<le>
      length [''Ana'', ''Bea'', ''Cid'', ''Dan'', ''Eva'']"
    by simp
  have c: "impostorCount (GAME_VARIANTS accomplices) = 2"
    and k: "impostorsKnowEachOther (GAME_VARIANTS accomplices)"
    by simp_all
  from startNewGame_partners [OF r m c k, of fallback_env 0 "''animales''"] r m show ?thesis
    by (simp add: startNewGame_def startNewGame_with_def shuffle_five select_two_of_five
        animales_words role_at_def element_at_def secureRandom_fallback_env)
qed


end
